theory Spec2Isabelle
  imports Main "HOL-Library.AList" "HOL-Library.Multiset"
begin

section \<open>Raw span values\<close>

text \<open>
  \<^verbatim>\<open>buildTraceHierarchy(projectId, traceId, spans: any[])\<close> in
  \<^verbatim>\<open>services/trace/types.ts\<close> reads untyped records; its callers pass the spans of a
  decoded JSON answer of the tracing backend. A raw value is a JSON tree. The field list
  of \<open>JObj\<close> is the object's own properties in the order \<^verbatim>\<open>Object.entries\<close>
  enumerates them. Numbers are the integers (status codes, ids and counters are integral
  in the backend's answers). A string is a list of characters, each a code unit below
  256, and lengths count characters. Two kinds of values are beyond what the
  conversions below describe; \<open>convertsToPrimitive\<close> and \<open>printsInFull\<close> tell
  the values free of them, and the statements that depend on these conversions assume
  them of the input.
\<close>

datatype jsval =
    JUndefined
  | JNull
  | JBool bool
  | JNum int
  | JStr string
  | JArr "jsval list"
  | JObj "(string \<times> jsval) list"

text \<open>Truthiness, as \<^verbatim>\<open>if (v)\<close>, \<^verbatim>\<open>a || b\<close> and \<^verbatim>\<open>a && b\<close> test it.\<close>

fun truthy :: "jsval \<Rightarrow> bool" where
  "truthy JUndefined = False"
| "truthy JNull = False"
| "truthy (JBool b) = b"
| "truthy (JNum n) = (n \<noteq> 0)"
| "truthy (JStr s) = (s \<noteq> [])"
| "truthy (JArr xs) = True"
| "truthy (JObj fs) = True"

definition jsOr :: "jsval \<Rightarrow> jsval \<Rightarrow> jsval" where
  "jsOr a b = (if truthy a then a else b)"

fun isString :: "jsval \<Rightarrow> bool" where
  "isString (JStr s) = True"
| "isString v = False"

fun isArray :: "jsval \<Rightarrow> bool" where
  "isArray (JArr xs) = True"
| "isArray v = False"

fun isNullish :: "jsval \<Rightarrow> bool" where
  "isNullish JUndefined = True"
| "isNullish JNull = True"
| "isNullish v = False"

text \<open>
  Property read \<^verbatim>\<open>v.k\<close> or \<^verbatim>\<open>v[k]\<close> on a value that is not null or undefined. The
  source reads only the names of span fields and of labels, none of which is a built-in
  property of a string, an array, a number or a boolean, so those give undefined. The
  reads of the source that could meet null or undefined are all guarded by a truthiness
  test or by \<^verbatim>\<open>?.\<close>, except the reads on the span itself (see \<open>convertSpan\<close>).
\<close>

fun getProp :: "jsval \<Rightarrow> string \<Rightarrow> jsval" where
  "getProp (JObj fs) k = (case map_of fs k of Some v \<Rightarrow> v | None \<Rightarrow> JUndefined)"
| "getProp v k = JUndefined"

subsection \<open>Conversions to string and to number\<close>

definition digitChar :: "nat \<Rightarrow> char" where
  "digitChar d = ''0123456789'' ! d"

function showNat :: "nat \<Rightarrow> string" where
  "showNat n = (if n < 10 then [digitChar n] else showNat (n div 10) @ [digitChar (n mod 10)])"
  by pat_completeness auto
termination
  by (relation "measure id") auto

declare showNat.simps [simp del]

definition showInt :: "int \<Rightarrow> string" where
  "showInt i = (if i < 0 then CHR ''-'' # showNat (nat (- i)) else showNat (nat i))"

fun joinWith :: "string \<Rightarrow> string list \<Rightarrow> string" where
  "joinWith sep [] = []"
| "joinWith sep [s] = s"
| "joinWith sep (s # t # r) = s @ sep @ joinWith sep (t # r)"

text \<open>\<^verbatim>\<open>String(v)\<close> and the conversion a template literal applies to \<^verbatim>\<open>${v}\<close>.\<close>

fun toString :: "jsval \<Rightarrow> string" where
  "toString JUndefined = ''undefined''"
| "toString JNull = ''null''"
| "toString (JBool b) = (if b then ''true'' else ''false'')"
| "toString (JNum n) = showInt n"
| "toString (JStr s) = s"
| "toString (JArr xs) = joinWith '','' (map (\<lambda>x. if isNullish x then [] else toString x) xs)"
| "toString (JObj fs) = ''[object Object]''"

text \<open>
  The conversion of an object is the inherited \<^verbatim>\<open>Object.prototype.toString\<close>. An
  object with a property of its own named \<^verbatim>\<open>toString\<close> (decoded from JSON, so not a
  function) has no conversion to a primitive value: where the source converts it to a
  string, to a number or to a date, the engine throws \<open>TypeError\<close>, and so it does
  on an array that holds such an object. \<open>convertsToPrimitive\<close> tells the values
  that hold no such object.
\<close>

fun convertsToPrimitive :: "jsval \<Rightarrow> bool" where
  "convertsToPrimitive (JArr xs) = list_all convertsToPrimitive xs"
| "convertsToPrimitive (JObj fs) =
     (''toString'' \<notin> set (map fst fs) \<and> list_all convertsToPrimitive (map snd fs))"
| "convertsToPrimitive v = True"

text \<open>
  The conversion of a number prints the integer in full, which is what the engine
  prints for the integers it holds exactly, up to \<open>2\<^sup>5\<^sup>3 - 1\<close>; beyond them the engine
  rounds the digits, and from \<open>10\<^sup>2\<^sup>1\<close> on it prints an exponent. \<open>printsInFull\<close>
  tells the values that hold no number beyond them. A value is within the model when
  it converts to a primitive value and prints in full.
\<close>

fun printsInFull :: "jsval \<Rightarrow> bool" where
  "printsInFull (JNum n) = (\<bar>n\<bar> \<le> 9007199254740991)"
| "printsInFull (JArr xs) = list_all printsInFull xs"
| "printsInFull (JObj fs) = list_all printsInFull (map snd fs)"
| "printsInFull v = True"

definition withinModel :: "jsval \<Rightarrow> bool" where
  "withinModel v = (convertsToPrimitive v \<and> printsInFull v)"

text \<open>
  The white space \<^verbatim>\<open>parseInt\<close> skips: the characters of \<^verbatim>\<open>WhiteSpace\<close> and
  \<^verbatim>\<open>LineTerminator\<close> that are code units below 256.
\<close>

definition isWhite :: "char \<Rightarrow> bool" where
  "isWhite c = (c \<in> set [CHR 0x09, CHR 0x0A, CHR 0x0B, CHR 0x0C, CHR 0x0D, CHR 0x20, CHR 0xA0])"

definition isDigit :: "char \<Rightarrow> bool" where
  "isDigit c = (c \<in> set ''0123456789'')"

definition digitVal :: "char \<Rightarrow> nat" where
  "digitVal c = length (takeWhile (\<lambda>d. d \<noteq> c) ''0123456789'')"

definition digitsVal :: "string \<Rightarrow> int" where
  "digitsVal ds = int (foldl (\<lambda>a c. 10 * a + digitVal c) 0 ds)"

text \<open>
  \<^verbatim>\<open>parseInt(s, 10)\<close>: leading white space is skipped, a sign is read, then the longest
  run of decimal digits; \<open>None\<close> is NaN (no digit at all).
\<close>

definition splitSign :: "string \<Rightarrow> bool \<times> string" where
  "splitSign t =
     (case t of
        [] \<Rightarrow> (False, [])
      | c # r \<Rightarrow> if c = CHR ''-'' then (True, r) else if c = CHR ''+'' then (False, r) else (False, t))"

definition parseInt :: "string \<Rightarrow> int option" where
  "parseInt s =
     (let (neg, u) = splitSign (dropWhile isWhite s); ds = takeWhile isDigit u
      in if ds = [] then None else Some (if neg then - digitsVal ds else digitsVal ds))"

text \<open>
  \<^verbatim>\<open>Object.entries(v)\<close> on a value that is not null or undefined: the fields of an
  object, the indexed elements of an array, the indexed characters of a string, nothing
  for a number or a boolean.
\<close>

fun objectEntries :: "jsval \<Rightarrow> (string \<times> jsval) list" where
  "objectEntries (JObj fs) = fs"
| "objectEntries (JArr xs) = zip (map showNat [0..<length xs]) xs"
| "objectEntries (JStr s) = zip (map showNat [0..<length s]) (map (\<lambda>c. JStr [c]) s)"
| "objectEntries v = []"

definition startsWith :: "string \<Rightarrow> string \<Rightarrow> bool" where
  "startsWith s p = (take (length p) s = p)"

subsection \<open>Built-ins of the platform\<close>

text \<open>
  Four built-ins are parameters of the model: \<^verbatim>\<open>new Date(v).getTime()\<close> (\<open>None\<close> is
  NaN, the time of an invalid date), \<^verbatim>\<open>JSON.stringify(v)\<close> (\<open>None\<close> when it throws),
  the conversion of a string to a number (\<open>None\<close> is NaN), and the order in which
  \<^verbatim>\<open>Array.prototype.sort\<close> leaves an array whose comparator is not consistent (see
  \<open>arraySort\<close>): there the language leaves the order to the engine. \<open>sortOrder\<close> is
  given the results of the comparator on every pair of elements, row \<open>i\<close> and column
  \<open>j\<close> for the elements at \<open>i\<close> and \<open>j\<close>, and answers with the positions of the
  elements in the order of the result. Every theorem with a platform \<open>P\<close> holds for
  every behaviour of the four.
\<close>

record platform =
  dateGetTime :: "jsval \<Rightarrow> int option"
  jsonStringify :: "jsval \<Rightarrow> string option"
  stringToNumber :: "string \<Rightarrow> int option"
  sortOrder :: "int list list \<Rightarrow> nat list"

text \<open>The numeric conversion \<^verbatim>\<open>v > 0\<close> applies to its left operand; \<open>None\<close> is NaN.\<close>

fun toNumber :: "platform \<Rightarrow> jsval \<Rightarrow> int option" where
  "toNumber P JUndefined = None"
| "toNumber P JNull = Some 0"
| "toNumber P (JBool b) = Some (if b then 1 else 0)"
| "toNumber P (JNum n) = Some n"
| "toNumber P (JStr s) = stringToNumber P s"
| "toNumber P (JArr xs) = stringToNumber P (toString (JArr xs))"
| "toNumber P (JObj fs) = None"

definition jsGreaterZero :: "platform \<Rightarrow> jsval \<Rightarrow> bool" where
  "jsGreaterZero P v = (case toNumber P v of None \<Rightarrow> False | Some n \<Rightarrow> 0 < n)"

section \<open>Canonical spans\<close>

datatype TraceStatus = OK | ERROR | UNSPECIFIED

datatype error = TypeError | RangeError

text \<open>
  \<^verbatim>\<open>interface TraceSpan\<close>. The fields are typed \<^verbatim>\<open>string\<close> in the source, but the
  conversion stores what the raw span holds, so they are raw values here;
  \<open>displayName\<close> alone is a string whenever the conversion returns. \<open>parentSpanId\<close>
  is \<open>None\<close> when the property is not set. \<open>childSpans\<close> holds references to span
  objects: the objects are the entries of the array \<^verbatim>\<open>traceSpans\<close>, and a reference
  is the index of the object in that array.
\<close>

record TraceSpan =
  spanId :: jsval
  displayName :: string
  startTime :: jsval
  endTime :: jsval
  kind :: jsval
  status :: TraceStatus
  parentSpanId :: "jsval option"
  attributes :: "(string \<times> jsval) list"
  childSpans :: "nat list"

subsection \<open>Display name (lines 361 to 455)\<close>

definition initialName :: "jsval \<Rightarrow> jsval" where
  "initialName span =
     (if truthy (getProp span ''name'') then getProp span ''name''
      else if truthy (getProp (getProp span ''displayName'') ''value'')
        then getProp (getProp span ''displayName'') ''value''
      else if isString (getProp span ''displayName'') then getProp span ''displayName''
      else JStr ''Unknown Span'')"

text \<open>
  The chain over the well-known labels. \<^verbatim>\<open>.substring(0, 30)\<close> is called on the
  statement label whatever its type: on a value that is not a string it is not a
  function, and the call throws.
\<close>

definition labelName :: "jsval \<Rightarrow> error + string" where
  "labelName labels =
     (if truthy (getProp labels ''/http/path'') then
        Inr (toString (jsOr (getProp labels ''/http/method'') (JStr '''')) @ '' '' @
             toString (getProp labels ''/http/path''))
      else if truthy (getProp labels ''/http/url'') then
        Inr (''HTTP '' @ toString (getProp labels ''/http/url''))
      else if truthy (getProp labels ''/http/status_code'') then
        Inr (''HTTP Status: '' @ toString (getProp labels ''/http/status_code''))
      else if truthy (getProp labels ''/component'') then
        Inr (''Component: '' @ toString (getProp labels ''/component''))
      else if truthy (getProp labels ''/db/statement'') then
        (case getProp labels ''/db/statement'' of
           JStr st \<Rightarrow>
             Inr (toString (jsOr (getProp labels ''/db/system'') (JStr ''DB'')) @ '': '' @
                  take 30 st @ ''...'')
         | _ \<Rightarrow> Inl TypeError)
      else if truthy (getProp labels ''g.co/agent'') then
        Inr (''Agent: '' @ toString (getProp labels ''g.co/agent''))
      else if truthy (getProp labels ''g.co/gae/app/module'') then
        Inr (''GAE Module: '' @ toString (getProp labels ''g.co/gae/app/module''))
      else if truthy (getProp labels ''g.co/gae/app/version'') then
        Inr (''GAE Version: '' @ toString (getProp labels ''g.co/gae/app/version''))
      else if truthy (getProp labels ''g.co/gce/instance_id'') then
        Inr (''GCE Instance: '' @ toString (getProp labels ''g.co/gce/instance_id''))
      else Inr ''Unknown Span'')"

definition descriptiveLabels :: "jsval \<Rightarrow> (string \<times> jsval) list" where
  "descriptiveLabels labels =
     filter (\<lambda>(key, v). isString v \<and> \<not> startsWith key ''/'' \<and> \<not> startsWith key ''g.co/'' \<and>
                         length (toString v) < 50)
       (objectEntries labels)"

definition labelPhase :: "jsval \<Rightarrow> error + string" where
  "labelPhase labels =
     (case labelName labels of
        Inl e \<Rightarrow> Inl e
      | Inr n \<Rightarrow>
          Inr (if n = ''Unknown Span'' then
                 (case descriptiveLabels labels of
                    [] \<Rightarrow> n
                  | (key, v) # rest \<Rightarrow> key @ '': '' @ toString v)
               else n))"

definition possibleNameFields :: "string list" where
  "possibleNameFields = [''operationName'', ''description'', ''type'', ''method'', ''rpcName'', ''kind'']"

definition altFieldName :: "jsval \<Rightarrow> string \<Rightarrow> string" where
  "altFieldName span n =
     (case find (\<lambda>field. truthy (getProp span field) \<and> isString (getProp span field))
             possibleNameFields of
        Some field \<Rightarrow> field @ '': '' @ toString (getProp span field)
      | None \<Rightarrow>
          if truthy (getProp span ''operation'') \<and> truthy (getProp (getProp span ''operation'') ''name'')
          then ''Operation: '' @ toString (getProp (getProp span ''operation'') ''name'')
          else n)"

text \<open>
  \<^verbatim>\<open>displayName.startsWith('/')\<close> is called on whatever the first three branches
  stored: a name that is not a string has no such method, and the call throws.
\<close>

definition resolveDisplayName :: "jsval \<Rightarrow> jsval \<Rightarrow> error + string" where
  "resolveDisplayName span sid =
     (case initialName span of
        JStr n0 \<Rightarrow>
          (let n1 = (if startsWith n0 ''/'' then ''HTTP '' @ n0 else n0) in
           case (if n1 = ''Unknown Span'' then
                   (case (if truthy (getProp span ''labels'')
                          then labelPhase (getProp span ''labels'') else Inr n1) of
                      Inl e \<Rightarrow> Inl e
                    | Inr n2 \<Rightarrow> Inr (if n2 = ''Unknown Span'' then altFieldName span n2 else n2))
                 else Inr n1) of
             Inl e \<Rightarrow> Inl e
           | Inr n3 \<Rightarrow>
               Inr (if n3 = ''Unknown Span'' \<and> truthy sid
                    then ''Unknown Span (ID: '' @ toString sid @ '')'' else n3))
      | _ \<Rightarrow> Inl TypeError)"

subsection \<open>Kind and status (lines 462 to 501)\<close>

definition resolveKind :: "jsval \<Rightarrow> jsval" where
  "resolveKind span =
     (let k = (if truthy (getProp span ''kind'') then getProp span ''kind''
               else if truthy (getProp span ''spanKind'') then getProp span ''spanKind''
               else JStr ''UNSPECIFIED'');
          labels = getProp span ''labels''
      in if k = JStr ''UNSPECIFIED'' \<and> truthy labels then
           (if truthy (getProp labels ''/span/kind'') then getProp labels ''/span/kind''
            else if truthy (getProp labels ''span.kind'') then getProp labels ''span.kind''
            else k)
         else k)"

definition explicitStatus :: "platform \<Rightarrow> jsval \<Rightarrow> TraceStatus" where
  "explicitStatus P span =
     (if truthy (getProp span ''status'') then
        (if getProp (getProp span ''status'') ''code'' = JNum 0 then OK
         else if jsGreaterZero P (getProp (getProp span ''status'') ''code'') then ERROR
         else UNSPECIFIED)
      else UNSPECIFIED)"

definition labelStatus :: "jsval \<Rightarrow> TraceStatus" where
  "labelStatus labels =
     (if truthy (getProp labels ''/error/message'') \<or> truthy (getProp labels ''error'') then ERROR
      else if truthy (getProp labels ''/http/status_code'') then
        (case parseInt (toString (getProp labels ''/http/status_code'')) of
           None \<Rightarrow> UNSPECIFIED
         | Some statusCode \<Rightarrow>
             if 400 \<le> statusCode then ERROR
             else if 200 \<le> statusCode \<and> statusCode < 400 then OK
             else UNSPECIFIED)
      else UNSPECIFIED)"

definition resolveStatus :: "platform \<Rightarrow> jsval \<Rightarrow> TraceStatus" where
  "resolveStatus P span =
     (if explicitStatus P span = UNSPECIFIED \<and> truthy (getProp span ''labels'')
      then labelStatus (getProp span ''labels'')
      else explicitStatus P span)"

subsection \<open>Attributes (lines 503 to 559)\<close>

text \<open>
  \<^verbatim>\<open>attributes[key] = v\<close> on the object under construction, an object literal. The
  list holds the object's own properties: an existing key keeps its place and takes the
  new value, a new key is appended. (An engine enumerates the keys that are array
  indices first; the properties below are about the values under the keys, not about
  their order.) The key \<^verbatim>\<open>__proto__\<close> is the one exception: it is an accessor of
  \<^verbatim>\<open>Object.prototype\<close>, and the assignment runs its setter, which stores no property
  (it ignores a string, and makes an object the prototype of \<^verbatim>\<open>attributes\<close>, which
  changes no property of its own).
\<close>

definition assignProperty :: "(string \<times> jsval) list \<Rightarrow> string \<Rightarrow> jsval \<Rightarrow> (string \<times> jsval) list" where
  "assignProperty obj key v = (if key = ''__proto__'' then obj else AList.update key v obj)"

definition flattenLabels :: "(string \<times> jsval) list \<Rightarrow> jsval \<Rightarrow> (string \<times> jsval) list" where
  "flattenLabels attrs labels =
     fold (\<lambda>(key, v) a. if \<not> isNullish v then assignProperty a key (JStr (toString v)) else a)
       (objectEntries labels) attrs"

definition attributeValue :: "jsval \<Rightarrow> jsval" where
  "attributeValue v =
     (if truthy (getProp v ''stringValue'') then getProp v ''stringValue''
      else JStr (toString (jsOr (jsOr (getProp v ''intValue'') (getProp v ''boolValue'')) (JStr ''''))))"

definition flattenAttributeMap :: "(string \<times> jsval) list \<Rightarrow> jsval \<Rightarrow> (string \<times> jsval) list" where
  "flattenAttributeMap attrs amap =
     fold (\<lambda>(key, v) a. if \<not> isNullish v then assignProperty a key (attributeValue v) else a)
       (objectEntries amap) attrs"

definition standardKeys :: "string list" where
  "standardKeys = [''spanId'', ''name'', ''displayName'', ''startTime'', ''endTime'', ''parentSpanId'',
                   ''kind'', ''status'', ''labels'', ''attributes'', ''childSpans'']"

definition rawFieldText :: "platform \<Rightarrow> jsval \<Rightarrow> string option" where
  "rawFieldText P v =
     (case v of
        JUndefined \<Rightarrow> None
      | JNull \<Rightarrow> None
      | JArr xs \<Rightarrow> None
      | JObj fs \<Rightarrow>
          Some (case jsonStringify P v of
                  Some s \<Rightarrow> take 100 s @ (if 100 < length s then ''...'' else '''')
                | None \<Rightarrow> ''[Complex Object]'')
      | _ \<Rightarrow> Some (toString v))"

definition flattenOther :: "platform \<Rightarrow> (string \<times> jsval) list \<Rightarrow> jsval \<Rightarrow> (string \<times> jsval) list" where
  "flattenOther P attrs span =
     fold (\<lambda>(key, v) a.
             if key \<in> set standardKeys then a
             else (case rawFieldText P v of
                     None \<Rightarrow> a
                   | Some txt \<Rightarrow> assignProperty a (''raw.'' @ key) (JStr txt)))
       (objectEntries span) attrs"

text \<open>The attributes after the first two sources, the label map and the attribute map.\<close>

definition mapAttributes :: "jsval \<Rightarrow> (string \<times> jsval) list" where
  "mapAttributes span =
     (let a1 = (if truthy (getProp span ''labels'')
                then flattenLabels [] (getProp span ''labels'') else [])
      in if truthy (getProp span ''attributes'') \<and>
            truthy (getProp (getProp span ''attributes'') ''attributeMap'')
         then flattenAttributeMap a1 (getProp (getProp span ''attributes'') ''attributeMap'')
         else a1)"

definition resolveAttributes :: "platform \<Rightarrow> jsval \<Rightarrow> (string \<times> jsval) list" where
  "resolveAttributes P span = flattenOther P (mapAttributes span) span"

subsection \<open>One raw span to one canonical span (the callback of \<^verbatim>\<open>spans.map\<close>)\<close>

text \<open>
  \<^verbatim>\<open>span.spanId\<close>, the first read of the callback, throws on a span that is null
  or undefined.
\<close>

definition convertSpan :: "platform \<Rightarrow> jsval \<Rightarrow> error + TraceSpan" where
  "convertSpan P span =
     (if isNullish span then Inl TypeError
      else
        (let sid = jsOr (getProp span ''spanId'') (JStr '''') in
         case resolveDisplayName span sid of
           Inl e \<Rightarrow> Inl e
         | Inr dn \<Rightarrow>
             Inr \<lparr> spanId = sid,
                   displayName = dn,
                   startTime = jsOr (getProp span ''startTime'') (JStr ''''),
                   endTime = jsOr (getProp span ''endTime'') (JStr ''''),
                   kind = resolveKind span,
                   status = resolveStatus P span,
                   parentSpanId =
                     (if truthy (jsOr (getProp span ''parentSpanId'') (JStr ''''))
                      then Some (jsOr (getProp span ''parentSpanId'') (JStr '''')) else None),
                   attributes = resolveAttributes P span,
                   childSpans = [] \<rparr>))"

fun convertSpans :: "platform \<Rightarrow> jsval list \<Rightarrow> error + TraceSpan list" where
  "convertSpans P [] = Inr []"
| "convertSpans P (span # rest) =
     (case convertSpan P span of
        Inl e \<Rightarrow> Inl e
      | Inr t \<Rightarrow> (case convertSpans P rest of Inl e \<Rightarrow> Inl e | Inr ts \<Rightarrow> Inr (t # ts)))"

section \<open>Hierarchy builder\<close>

subsection \<open>The index \<^verbatim>\<open>spanMap\<close>\<close>

text \<open>
  \<^verbatim>\<open>new Map<string, TraceSpan>()\<close>: entries in insertion order, keys compared by
  SameValueZero. Primitive keys are compared by value. An object or an array is compared
  by identity, and every object of the decoded raw input is an object of its own, so two
  such keys are never the same. The value stored is the reference to the span object.
\<close>

fun isObjectLike :: "jsval \<Rightarrow> bool" where
  "isObjectLike (JArr xs) = True"
| "isObjectLike (JObj fs) = True"
| "isObjectLike v = False"

definition sameValueZero :: "jsval \<Rightarrow> jsval \<Rightarrow> bool" where
  "sameValueZero a b = (\<not> isObjectLike a \<and> a = b)"

fun mapSet :: "(jsval \<times> nat) list \<Rightarrow> jsval \<Rightarrow> nat \<Rightarrow> (jsval \<times> nat) list" where
  "mapSet [] k v = [(k, v)]"
| "mapSet ((k', v') # m) k v =
     (if sameValueZero k' k then (k', v) # m else (k', v') # mapSet m k v)"

fun mapGet :: "(jsval \<times> nat) list \<Rightarrow> jsval \<Rightarrow> nat option" where
  "mapGet [] k = None"
| "mapGet ((k', v') # m) k = (if sameValueZero k' k then Some v' else mapGet m k)"

text \<open>
  \<^verbatim>\<open>spanMap.set(spanId, traceSpan)\<close> at the end of each conversion: span \<open>i\<close> of the
  input is stored under its id, replacing an earlier span of the same id. A conversion
  that throws ends the whole call, so the index is built here from the converted list.
\<close>

fun indexSpans :: "(jsval \<times> nat) list \<Rightarrow> nat \<Rightarrow> TraceSpan list \<Rightarrow> (jsval \<times> nat) list" where
  "indexSpans m i [] = m"
| "indexSpans m i (t # ts) = indexSpans (mapSet m (spanId t) i) (Suc i) ts"

subsection \<open>Link pass (lines 595 to 620)\<close>

text \<open>
  The state of the loop: the span objects (the heap, indexed by reference), the array
  \<^verbatim>\<open>rootSpans\<close>, and a count of the calls of \<^verbatim>\<open>spanMap.get\<close> made so far (the count
  is not data of the program; it records the effect).
\<close>

type_synonym linkState = "TraceSpan list \<times> nat list \<times> nat"

definition pushChild :: "TraceSpan list \<Rightarrow> nat \<Rightarrow> nat \<Rightarrow> TraceSpan list" where
  "pushChild heap p c = heap[p := (heap ! p)\<lparr>childSpans := childSpans (heap ! p) @ [c]\<rparr>]"

definition linkStep :: "(jsval \<times> nat) list \<Rightarrow> nat \<Rightarrow> linkState \<Rightarrow> linkState" where
  "linkStep spanMap i st =
     (case st of (heap, roots, lookups) \<Rightarrow>
        (case parentSpanId (heap ! i) of
           None \<Rightarrow> (heap, roots @ [i], lookups)
         | Some parent \<Rightarrow>
             (case mapGet spanMap parent of
                Some p \<Rightarrow> (pushChild heap p i, roots, Suc lookups)
              | None \<Rightarrow> (heap, roots @ [i], Suc lookups))))"

definition linkPass :: "(jsval \<times> nat) list \<Rightarrow> TraceSpan list \<Rightarrow> linkState" where
  "linkPass spanMap traceSpans =
     fold (linkStep spanMap) [0..<length traceSpans] (traceSpans, [], 0)"

subsection \<open>Sort pass (lines 622 to 630)\<close>

text \<open>
  The comparator constructs the two dates and returns the difference of their times.
  \<^verbatim>\<open>new Date(v)\<close> throws \<open>TypeError\<close> on a start time that has no conversion to
  a primitive value (see \<open>convertsToPrimitive\<close>), so a call of the comparator
  throws when one of its two spans has such a start time. Otherwise the difference is
  NaN when either date is invalid, and \<^verbatim>\<open>Array.prototype.sort\<close> reads NaN as
  \<open>0\<close>: \<open>compareStart\<close> is the comparator as the sort reads it.
\<close>

definition startThrows :: "TraceSpan list \<Rightarrow> nat \<Rightarrow> bool" where
  "startThrows heap c = (\<not> convertsToPrimitive (startTime (heap ! c)))"

definition compareStart :: "platform \<Rightarrow> TraceSpan list \<Rightarrow> nat \<Rightarrow> nat \<Rightarrow> int" where
  "compareStart P heap a b =
     (case dateGetTime P (startTime (heap ! a)) of
        None \<Rightarrow> 0
      | Some ta \<Rightarrow> (case dateGetTime P (startTime (heap ! b)) of None \<Rightarrow> 0 | Some tb \<Rightarrow> ta - tb))"

text \<open>
  \<^verbatim>\<open>Array.prototype.sort\<close> with a comparator. The comparator, as the sort reads it,
  is consistent on the elements of the array when it is reflexive, symmetric in its
  sign, and transitive in each of its three signs; the result is then the same on every
  engine: the elements in non-decreasing order, equal ones in the order they had (the
  sort is stable). That array is computed here by the stable insertion sort, an element
  moving behind the elements it is strictly greater than.
\<close>

definition consistentOn :: "('a \<Rightarrow> 'a \<Rightarrow> int) \<Rightarrow> 'a list \<Rightarrow> bool" where
  "consistentOn cmp xs =
     list_all (\<lambda>a. cmp a a = 0 \<and>
       list_all (\<lambda>b. (cmp a b = 0) = (cmp b a = 0) \<and> (cmp a b < 0) = (0 < cmp b a) \<and>
         list_all (\<lambda>c. (if cmp a b = 0 \<and> cmp b c = 0 then cmp a c = 0 else True) \<and>
                        (if cmp a b < 0 \<and> cmp b c < 0 then cmp a c < 0 else True) \<and>
                        (if 0 < cmp a b \<and> 0 < cmp b c then 0 < cmp a c else True)) xs) xs) xs"

fun insertBy :: "('a \<Rightarrow> 'a \<Rightarrow> int) \<Rightarrow> 'a \<Rightarrow> 'a list \<Rightarrow> 'a list" where
  "insertBy cmp x [] = [x]"
| "insertBy cmp x (y # ys) = (if 0 < cmp x y then y # insertBy cmp x ys else x # y # ys)"

definition stableSort :: "('a \<Rightarrow> 'a \<Rightarrow> int) \<Rightarrow> 'a list \<Rightarrow> 'a list" where
  "stableSort cmp xs = foldr (insertBy cmp) xs []"

text \<open>
  On a comparator that is not consistent the sort still returns the elements of the
  array, each once, in an order of the engine's choice: the platform is asked for the
  positions (an answer that is not a rearrangement of the positions, which no engine
  gives, leaves the array as it is).
\<close>

definition compareTable :: "('a \<Rightarrow> 'a \<Rightarrow> int) \<Rightarrow> 'a list \<Rightarrow> int list list" where
  "compareTable cmp xs = map (\<lambda>a. map (cmp a) xs) xs"

definition arraySort :: "platform \<Rightarrow> ('a \<Rightarrow> 'a \<Rightarrow> int) \<Rightarrow> 'a list \<Rightarrow> 'a list" where
  "arraySort P cmp xs =
     (if consistentOn cmp xs then stableSort cmp xs
      else (let order = sortOrder P (compareTable cmp xs)
            in if sort order = [0..<length xs] then map (\<lambda>i. xs ! i) order else xs))"

text \<open>
  One round of the loop. The sort of an array of two or more elements calls the
  comparator on each element at least once, and a throw of the comparator ends the sort
  and the whole call; an array of one element is left as it is without a call.
\<close>

definition sortStep :: "platform \<Rightarrow> nat \<Rightarrow> TraceSpan list \<Rightarrow> error + TraceSpan list" where
  "sortStep P i heap =
     (if childSpans (heap ! i) \<noteq> []
      then (if 2 \<le> length (childSpans (heap ! i)) \<and> list_ex (startThrows heap) (childSpans (heap ! i))
            then Inl TypeError
            else Inr (heap[i := (heap ! i)\<lparr>childSpans :=
                        arraySort P (compareStart P heap) (childSpans (heap ! i))\<rparr>]))
      else Inr heap)"

definition sortPass :: "platform \<Rightarrow> TraceSpan list \<Rightarrow> error + TraceSpan list" where
  "sortPass P heap =
     fold (\<lambda>i acc. case acc of Inl e \<Rightarrow> Inl e | Inr h \<Rightarrow> sortStep P i h) [0..<length heap] (Inr heap)"

subsection \<open>Counting descendants (lines 638 to 650)\<close>

text \<open>
  \<^verbatim>\<open>countDescendants\<close> recurses into every child and adds to the shared counter
  \<^verbatim>\<open>totalDescendants\<close>, passed through here. The fuel bounds the depth of the
  recursion; \<open>None\<close> is a recursion deeper than the fuel.
\<close>

fun countDescendants :: "nat \<Rightarrow> TraceSpan list \<Rightarrow> nat \<Rightarrow> nat \<Rightarrow> nat option" where
  "countDescendants 0 heap i n = None"
| "countDescendants (Suc fuel) heap i n =
     fold (\<lambda>child acc. case acc of None \<Rightarrow> None | Some m \<Rightarrow> countDescendants fuel heap child m)
       (childSpans (heap ! i))
       (Some (n + length (childSpans (heap ! i))))"

subsection \<open>\<^verbatim>\<open>buildTraceHierarchy\<close>\<close>

text \<open>
  \<^verbatim>\<open>interface TraceData\<close>. \<open>allSpans\<close> is the array of the span objects, in input
  order; \<open>rootSpans\<close> holds references into it.
\<close>

record TraceData =
  traceId :: string
  projectId :: string
  rootSpans :: "nat list"
  allSpans :: "TraceSpan list"

text \<open>
  The calls of the logger are dropped (\<^verbatim>\<open>logger.debug\<close> of \<^verbatim>\<open>utils/logger.ts\<close> writes
  a line to the error stream and never throws), except the descendant count made for
  every root inside the last debug loop: a recursion there that does not end within the
  fuel ends the call with \<open>RangeError\<close>. An error of the conversion or of the sort
  pass ends the call as well.
\<close>

definition buildTraceHierarchy ::
  "platform \<Rightarrow> nat \<Rightarrow> string \<Rightarrow> string \<Rightarrow> jsval list \<Rightarrow> error + TraceData" where
  "buildTraceHierarchy P fuel projId trId spans =
     (case convertSpans P spans of
        Inl e \<Rightarrow> Inl e
      | Inr traceSpans \<Rightarrow>
          (case linkPass (indexSpans [] 0 traceSpans) traceSpans of
             (heap, roots, lookups) \<Rightarrow>
               (case sortPass P heap of
                  Inl e \<Rightarrow> Inl e
                | Inr heap' \<Rightarrow>
                    if list_all (\<lambda>r. countDescendants fuel heap' r 0 \<noteq> None) roots
                    then Inr \<lparr> traceId = trId, projectId = projId, rootSpans = roots,
                               allSpans = heap' \<rparr>
                    else Inl RangeError)))"

section \<open>Notions used by the properties of the hierarchy\<close>

text \<open>
  The span object the link pass attaches span \<open>i\<close> to: the entry of the index under
  the parent id of span \<open>i\<close>; \<open>None\<close> when span \<open>i\<close> has no parent id or the index has
  no such entry.
\<close>

definition parentIndex :: "TraceSpan list \<Rightarrow> nat \<Rightarrow> nat option" where
  "parentIndex ts i =
     (case parentSpanId (ts ! i) of
        None \<Rightarrow> None
      | Some parent \<Rightarrow> mapGet (indexSpans [] 0 ts) parent)"

text \<open>\<open>climb ts k i\<close> follows the parent references \<open>k\<close> times, starting at span \<open>i\<close>.\<close>

fun climb :: "TraceSpan list \<Rightarrow> nat \<Rightarrow> nat \<Rightarrow> nat option" where
  "climb ts 0 i = Some i"
| "climb ts (Suc k) i = (case parentIndex ts i of None \<Rightarrow> None | Some p \<Rightarrow> climb ts k p)"









text \<open>
  Closed forms of the passes over the converted spans \<open>ts\<close>, shown below to be what
  the loops compute: the heap after the link pass has visited the spans before \<open>k\<close>,
  the heap after the sort pass has visited them, the final roots and heap, and whether
  the sort pass throws (at a span with two or more children, one of which has a start
  time without conversion to a primitive value).
\<close>

definition linked :: "TraceSpan list \<Rightarrow> nat \<Rightarrow> TraceSpan list" where
  "linked ts k =
     map (\<lambda>j. (ts ! j)\<lparr>childSpans := filter (\<lambda>i. parentIndex ts i = Some j) [0..<k]\<rparr>)
       [0..<length ts]"

definition sortedUpTo :: "platform \<Rightarrow> TraceSpan list \<Rightarrow> nat \<Rightarrow> TraceSpan list" where
  "sortedUpTo P heap k =
     map (\<lambda>j. if j < k
               then (heap ! j)\<lparr>childSpans := arraySort P (compareStart P heap) (childSpans (heap ! j))\<rparr>
               else heap ! j)
       [0..<length heap]"

definition childrenOf :: "TraceSpan list \<Rightarrow> nat \<Rightarrow> nat list" where
  "childrenOf ts j = filter (\<lambda>i. parentIndex ts i = Some j) [0..<length ts]"

definition rootsOf :: "TraceSpan list \<Rightarrow> nat list" where
  "rootsOf ts = filter (\<lambda>i. parentIndex ts i = None) [0..<length ts]"

definition stepThrows :: "TraceSpan list \<Rightarrow> nat \<Rightarrow> bool" where
  "stepThrows heap j =
     (2 \<le> length (childSpans (heap ! j)) \<and> list_ex (startThrows heap) (childSpans (heap ! j)))"

definition sortThrows :: "TraceSpan list \<Rightarrow> bool" where
  "sortThrows ts =
     list_ex (\<lambda>j. 2 \<le> length (childrenOf ts j) \<and> list_ex (startThrows ts) (childrenOf ts j))
       [0..<length ts]"

definition hierarchy :: "platform \<Rightarrow> TraceSpan list \<Rightarrow> TraceSpan list" where
  "hierarchy P ts =
     map (\<lambda>j. (ts ! j)\<lparr>childSpans := arraySort P (compareStart P ts) (childrenOf ts j)\<rparr>)
       [0..<length ts]"

section \<open>Sample inputs\<close>

subsection \<open>A platform\<close>

text \<open>
  The order the engine of Node leaves in an array shorter than 64 elements, whatever
  the comparator (its sort takes such an array as a single run): the longest prefix
  that is non-decreasing, or strictly decreasing and then reversed, is kept, and each
  later element is put into the part before it at the place a binary search finds.
\<close>

fun runLength :: "('a \<Rightarrow> 'a \<Rightarrow> int) \<Rightarrow> bool \<Rightarrow> 'a \<Rightarrow> 'a list \<Rightarrow> nat" where
  "runLength cmp descending previous [] = 0"
| "runLength cmp descending previous (x # xs) =
     (if (if descending then 0 \<le> cmp x previous else cmp x previous < 0) then 0
      else Suc (runLength cmp descending x xs))"

definition countAndMakeRun :: "('a \<Rightarrow> 'a \<Rightarrow> int) \<Rightarrow> 'a list \<Rightarrow> 'a list \<times> 'a list" where
  "countAndMakeRun cmp xs =
     (case xs of
        x0 # x1 # rest \<Rightarrow>
          (let descending = (cmp x1 x0 < 0);
               n = 2 + runLength cmp descending x1 rest
           in (if descending then rev (take n xs) else take n xs, drop n xs))
      | _ \<Rightarrow> (xs, []))"

function binarySearch :: "('a \<Rightarrow> 'a \<Rightarrow> int) \<Rightarrow> 'a \<Rightarrow> 'a list \<Rightarrow> nat \<Rightarrow> nat \<Rightarrow> nat" where
  "binarySearch cmp pivot xs left right =
     (if left < right
      then (if cmp pivot (xs ! (left + (right - left) div 2)) < 0
            then binarySearch cmp pivot xs left (left + (right - left) div 2)
            else binarySearch cmp pivot xs (Suc (left + (right - left) div 2)) right)
      else left)"
  by pat_completeness auto
termination
  by (relation "measure (\<lambda>(cmp, pivot, xs, left, right). right - left)") auto

declare binarySearch.simps [simp del]

definition binaryInsert :: "('a \<Rightarrow> 'a \<Rightarrow> int) \<Rightarrow> 'a list \<Rightarrow> 'a \<Rightarrow> 'a list" where
  "binaryInsert cmp xs pivot =
     (let pos = binarySearch cmp pivot xs 0 (length xs) in take pos xs @ pivot # drop pos xs)"

definition shortArraySort :: "('a \<Rightarrow> 'a \<Rightarrow> int) \<Rightarrow> 'a list \<Rightarrow> 'a list" where
  "shortArraySort cmp xs =
     (case countAndMakeRun cmp xs of (run, rest) \<Rightarrow> foldl (binaryInsert cmp) run rest)"

definition shortArrayOrder :: "int list list \<Rightarrow> nat list" where
  "shortArrayOrder table = shortArraySort (\<lambda>i j. table ! i ! j) [0..<length table]"

text \<open>
  A platform for the concrete evaluations below: a date is valid when it is a number, or
  a string that starts with a decimal integer (its time in milliseconds); a string is a
  number when it starts with a decimal integer; the order of a sort with an
  inconsistent comparator is that of Node on short arrays.
\<close>

definition samplePlatform :: platform where
  "samplePlatform =
     \<lparr> dateGetTime = (\<lambda>v. case v of JNum n \<Rightarrow> Some n | JStr s \<Rightarrow> parseInt s | _ \<Rightarrow> None),
       jsonStringify = (\<lambda>v. Some ''{}''),
       stringToNumber = parseInt,
       sortOrder = shortArrayOrder \<rparr>"

subsection \<open>Spans\<close>

text \<open>A span whose label map and attribute map both hold the key \<open>k\<close>.\<close>

definition spanBothMaps :: jsval where
  "spanBothMaps =
     JObj [(''spanId'', JStr ''a''),
           (''labels'', JObj [(''k'', JStr ''from-labels'')]),
           (''attributes'',
              JObj [(''attributeMap'', JObj [(''k'', JObj [(''stringValue'', JStr ''from-map'')])])])]"

text \<open>A span whose only name field is the empty string \<^verbatim>\<open>displayName\<close>.\<close>

definition spanEmptyName :: jsval where
  "spanEmptyName = JObj [(''spanId'', JStr ''a''), (''displayName'', JStr '''')]"

text \<open>A span whose \<^verbatim>\<open>name\<close> is a number.\<close>

definition spanNumericName :: jsval where
  "spanNumericName = JObj [(''spanId'', JStr ''a''), (''name'', JNum 123)]"

text \<open>A span with no status field and an empty error message among its labels.\<close>

definition spanEmptyError :: jsval where
  "spanEmptyError = JObj [(''spanId'', JStr ''a''), (''labels'', JObj [(''/error/message'', JStr '''')])]"

text \<open>A span with no status field and the HTTP status code 404 among its labels.\<close>

definition spanNotFound :: jsval where
  "spanNotFound = JObj [(''spanId'', JStr ''a''), (''labels'', JObj [(''/http/status_code'', JStr ''404'')])]"

text \<open>A span with two fields outside the standard ones, a number and an array.\<close>

definition spanExtraFields :: jsval where
  "spanExtraFields =
     JObj [(''spanId'', JStr ''a''), (''labels'', JObj [(''k'', JStr ''v'')]),
           (''retries'', JNum 5), (''links'', JArr [JNum 1])]"

text \<open>Scenario A of the specification: a root and its child.\<close>

definition spansParentChild :: "jsval list" where
  "spansParentChild =
     [JObj [(''spanId'', JStr ''a'')],
      JObj [(''spanId'', JStr ''b''), (''parentSpanId'', JStr ''a'')]]"

text \<open>Scenario B of the specification: one span whose parent is not in the list.\<close>

definition spansDangling :: "jsval list" where
  "spansDangling = [JObj [(''spanId'', JStr ''x''), (''parentSpanId'', JStr ''missing'')]]"


text \<open>Two spans that name each other as parent.\<close>

definition spansTwoCycle :: "jsval list" where
  "spansTwoCycle =
     [JObj [(''spanId'', JStr ''a''), (''parentSpanId'', JStr ''b'')],
      JObj [(''spanId'', JStr ''b''), (''parentSpanId'', JStr ''a'')]]"


text \<open>What the builder returns on some of these inputs (see the evaluations below).\<close>

definition unknownSpan :: "string \<Rightarrow> string \<Rightarrow> jsval option \<Rightarrow> nat list \<Rightarrow> TraceSpan" where
  "unknownSpan sid start parent children =
     \<lparr> spanId = JStr sid, displayName = ''Unknown Span (ID: '' @ sid @ '')'',
       startTime = JStr start, endTime = JStr '''', kind = JStr ''UNSPECIFIED'',
       status = UNSPECIFIED, parentSpanId = parent, attributes = [], childSpans = children \<rparr>"

definition traceParentChild :: TraceData where
  "traceParentChild =
     \<lparr> traceId = ''t'', projectId = ''p'', rootSpans = [0],
       allSpans = [unknownSpan ''a'' '''' None [1],
                   unknownSpan ''b'' '''' (Some (JStr ''a'')) []] \<rparr>"

definition traceDangling :: TraceData where
  "traceDangling =
     \<lparr> traceId = ''t'', projectId = ''p'', rootSpans = [0],
       allSpans = [unknownSpan ''x'' '''' (Some (JStr ''missing'')) []] \<rparr>"




text \<open>
  The converted spans of \<open>spansTwoCycle\<close>, \<open>spansTwoChildren\<close> and
  \<open>spansUnparsable\<close>.
\<close>

definition convertedTwoCycle :: "TraceSpan list" where
  "convertedTwoCycle =
     [unknownSpan ''a'' '''' (Some (JStr ''b'')) [],
      unknownSpan ''b'' '''' (Some (JStr ''a'')) []]"



text \<open>The canonical span of \<open>spanNotFound\<close>.\<close>

definition convertedNotFound :: TraceSpan where
  "convertedNotFound =
     \<lparr> spanId = JStr ''a'', displayName = ''HTTP Status: 404'', startTime = JStr '''',
       endTime = JStr '''', kind = JStr ''UNSPECIFIED'', status = ERROR, parentSpanId = None,
       attributes = [(''/http/status_code'', JStr ''404'')], childSpans = [] \<rparr>"



text \<open>
  A root with four children whose start times are 5, 4, not a date, and 3, and what the
  builder returns on it.
\<close>

definition spansDescendingMixed :: "jsval list" where
  "spansDescendingMixed =
     [JObj [(''spanId'', JStr ''a'')],
      JObj [(''spanId'', JStr ''b''), (''parentSpanId'', JStr ''a''), (''startTime'', JStr ''5'')],
      JObj [(''spanId'', JStr ''c''), (''parentSpanId'', JStr ''a''), (''startTime'', JStr ''4'')],
      JObj [(''spanId'', JStr ''x''), (''parentSpanId'', JStr ''a''), (''startTime'', JStr ''later'')],
      JObj [(''spanId'', JStr ''d''), (''parentSpanId'', JStr ''a''), (''startTime'', JStr ''3'')]]"

definition traceDescendingMixed :: TraceData where
  "traceDescendingMixed =
     \<lparr> traceId = ''t'', projectId = ''p'', rootSpans = [0],
       allSpans = [unknownSpan ''a'' '''' None [4, 2, 1, 3],
                   unknownSpan ''b'' ''5'' (Some (JStr ''a'')) [],
                   unknownSpan ''c'' ''4'' (Some (JStr ''a'')) [],
                   unknownSpan ''x'' ''later'' (Some (JStr ''a'')) [],
                   unknownSpan ''d'' ''3'' (Some (JStr ''a'')) []] \<rparr>"



text \<open>
  Scenarios A and B together: a root, its child, and a span whose parent is not in the
  list; the converted spans, and what the builder returns.
\<close>

definition spansChildAndDangling :: "jsval list" where
  "spansChildAndDangling =
     [JObj [(''spanId'', JStr ''a'')],
      JObj [(''spanId'', JStr ''b''), (''parentSpanId'', JStr ''a'')],
      JObj [(''spanId'', JStr ''x''), (''parentSpanId'', JStr ''missing'')]]"

definition convertedChildAndDangling :: "TraceSpan list" where
  "convertedChildAndDangling =
     [unknownSpan ''a'' '''' None [],
      unknownSpan ''b'' '''' (Some (JStr ''a'')) [],
      unknownSpan ''x'' '''' (Some (JStr ''missing'')) []]"

definition traceChildAndDangling :: TraceData where
  "traceChildAndDangling =
     \<lparr> traceId = ''t'', projectId = ''p'', rootSpans = [0, 2],
       allSpans = [unknownSpan ''a'' '''' None [1],
                   unknownSpan ''b'' '''' (Some (JStr ''a'')) [],
                   unknownSpan ''x'' '''' (Some (JStr ''missing'')) []] \<rparr>"

text \<open>
  A root with two children, one of which has an object with a property \<^verbatim>\<open>toString\<close>
  as start time.
\<close>

definition spansUnconvertibleStart :: "jsval list" where
  "spansUnconvertibleStart =
     [JObj [(''spanId'', JStr ''a'')],
      JObj [(''spanId'', JStr ''b''), (''parentSpanId'', JStr ''a''),
            (''startTime'', JObj [(''toString'', JStr ''5'')])],
      JObj [(''spanId'', JStr ''c''), (''parentSpanId'', JStr ''a''), (''startTime'', JStr ''3'')]]"

text \<open>
  A span whose label map and attribute map both hold the key \<^verbatim>\<open>__proto__\<close>, and a
  span whose HTTP status code label begins with a no-break space.
\<close>

definition spanProtoKey :: jsval where
  "spanProtoKey =
     JObj [(''spanId'', JStr ''a''),
           (''labels'', JObj [(''__proto__'', JStr ''from-labels''), (''k'', JStr ''v'')]),
           (''attributes'',
              JObj [(''attributeMap'',
                       JObj [(''__proto__'', JObj [(''stringValue'', JStr ''from-map'')])])])]"

definition spanNoBreakSpace :: jsval where
  "spanNoBreakSpace =
     JObj [(''spanId'', JStr ''a''), (''labels'', JObj [(''/http/status_code'', JStr (CHR 0xA0 # ''404''))])]"

section \<open>Properties of the conversion\<close>

lemmas convert_defs =
  convertSpan_def resolveDisplayName_def initialName_def jsOr_def startsWith_def
  labelPhase_def labelName_def descriptiveLabels_def altFieldName_def possibleNameFields_def
  resolveStatus_def explicitStatus_def labelStatus_def resolveKind_def
  resolveAttributes_def mapAttributes_def flattenLabels_def flattenAttributeMap_def
  flattenOther_def standardKeys_def attributeValue_def rawFieldText_def assignProperty_def
  Let_def

lemma jsGreaterZero_JNum: "jsGreaterZero P (JNum n) = (0 < n)"
  by (simp add: jsGreaterZero_def)

lemma convertSpan_fields:
  assumes "convertSpan P span = Inr t"
  shows "spanId t = jsOr (getProp span ''spanId'') (JStr '''')"
    and "parentSpanId t = (if truthy (getProp span ''parentSpanId'')
                           then Some (getProp span ''parentSpanId'') else None)"
    and "status t = resolveStatus P span"
    and "attributes t = resolveAttributes P span"
    and "childSpans t = []"
  using assms
  by (auto simp: convertSpan_def Let_def jsOr_def split: if_splits sum.splits)

lemma convertSpan_startTime:
  "convertSpan P span = Inr t \<Longrightarrow> startTime t = jsOr (getProp span ''startTime'') (JStr '''')"
  by (auto simp: convertSpan_def Let_def split: if_splits sum.splits)

lemma convertSpan_noChildren: "convertSpan P s = Inr t \<Longrightarrow> childSpans t = []"
  by (auto simp: convertSpan_def Let_def split: if_splits sum.splits)

lemma convertSpans_Inr:
  "convertSpans P spans = Inr ts \<Longrightarrow>
   length ts = length spans \<and> (\<forall>j<length spans. convertSpan P (spans ! j) = Inr (ts ! j))"
proof (induction spans arbitrary: ts)
  case Nil
  then show ?case by simp
next
  case (Cons s spans)
  then obtain t us where t: "convertSpan P s = Inr t" and us: "convertSpans P spans = Inr us"
    and ts: "ts = t # us"
    by (auto split: sum.splits)
  from Cons.IH[OF us] t ts show ?case
    by (auto simp: nth_Cons split: nat.splits)
qed

subsection \<open>Errors\<close>

text \<open>The conversion throws nothing but \<open>TypeError\<close>.\<close>

lemma labelName_error: "labelName labels = Inl e \<Longrightarrow> e = TypeError"
  by (auto simp: labelName_def split: if_splits jsval.splits)

lemma labelPhase_error: "labelPhase labels = Inl e \<Longrightarrow> e = TypeError"
  by (auto simp: labelPhase_def split: sum.splits dest: labelName_error)

lemma resolveDisplayName_error: "resolveDisplayName span sid = Inl e \<Longrightarrow> e = TypeError"
  by (auto simp: resolveDisplayName_def Let_def split: jsval.splits if_splits sum.splits
        dest: labelPhase_error)

lemma convertSpan_error: "convertSpan P span = Inl e \<Longrightarrow> e = TypeError"
  by (auto simp: convertSpan_def Let_def split: if_splits sum.splits dest: resolveDisplayName_error)

lemma convertSpans_error: "convertSpans P spans = Inl e \<Longrightarrow> e = TypeError"
  by (induction spans) (auto split: sum.splits dest: convertSpan_error)

text \<open>
  C6 fails on \<open>spanNumericName\<close>: the number is stored in \<^verbatim>\<open>displayName\<close> and
  \<^verbatim>\<open>displayName.startsWith('/')\<close> throws, for every platform and every fuel.
\<close>

theorem numeric_name_throws:
  "buildTraceHierarchy P fuel projId trId [spanNumericName] = Inl TypeError"
  by (simp add: buildTraceHierarchy_def spanNumericName_def convert_defs)

subsection \<open>Display name\<close>

lemma labelName_nonempty: "labelName labels = Inr n \<Longrightarrow> n \<noteq> []"
  by (auto simp: labelName_def split: if_splits jsval.splits)

lemma labelPhase_nonempty: "labelPhase labels = Inr n \<Longrightarrow> n \<noteq> []"
  by (auto simp: labelPhase_def split: sum.splits list.splits if_splits dest: labelName_nonempty)

lemma altFieldName_empty: "altFieldName span n = [] \<Longrightarrow> n = []"
  by (auto simp: altFieldName_def split: option.splits if_splits)

text \<open>
  The display name is empty only when the first three branches of the name chain end
  with the empty string, that is when \<^verbatim>\<open>name\<close> and \<^verbatim>\<open>displayName.value\<close> are falsy
  and \<^verbatim>\<open>displayName\<close> is the empty string.
\<close>

lemma displayName_nonempty:
  assumes "convertSpan P span = Inr t" and "initialName span \<noteq> JStr ''''"
  shows "displayName t \<noteq> ''''"
proof -
  from assms(1) have r: "resolveDisplayName span (jsOr (getProp span ''spanId'') (JStr '''')) = Inr (displayName t)"
    by (auto simp: convertSpan_def Let_def split: if_splits sum.splits)
  then show ?thesis
    using assms(2)
    by (auto simp: resolveDisplayName_def Let_def split: jsval.splits if_splits sum.splits
          dest: labelPhase_nonempty altFieldName_empty)
qed

text \<open>
  C5 fails on \<open>spanEmptyName\<close>: \<^verbatim>\<open>typeof span.displayName === 'string'\<close> accepts the
  empty string, no later step replaces it (each tests for the text \<open>Unknown Span\<close>),
  and the canonical span has the empty display name.
\<close>

theorem empty_displayName_kept:
  "convertSpan P spanEmptyName =
     Inr \<lparr> spanId = JStr ''a'', displayName = '''', startTime = JStr '''', endTime = JStr '''',
           kind = JStr ''UNSPECIFIED'', status = UNSPECIFIED, parentSpanId = None,
           attributes = [], childSpans = [] \<rparr>"
  by (simp add: spanEmptyName_def convert_defs)

subsection \<open>Status\<close>

text \<open>
  C9, as the code has it. On a span within the model on which the conversion returns,
  the status of the canonical span is decided in this order: a truthy status field whose
  code is the number 0 gives OK; a truthy status field whose code is greater than 0
  gives ERROR (for a number \<open>n\<close> that is \<open>0 < n\<close>, see \<open>jsGreaterZero_JNum\<close>);
  otherwise, with truthy labels, a truthy (so non-empty) value under \<open>/error/message\<close>
  or \<open>error\<close> gives ERROR; otherwise a truthy value under \<open>/http/status_code\<close>
  gives ERROR when \<^verbatim>\<open>parseInt\<close> reads 400 or more from it and OK when it reads 200
  to 399; otherwise the status is UNSPECIFIED.
\<close>

theorem status_precedence:
  assumes "convertSpan P span = Inr t" and "withinModel span"
  shows "status t =
     (if truthy (getProp span ''status'') \<and> getProp (getProp span ''status'') ''code'' = JNum 0
        then OK
      else if truthy (getProp span ''status'') \<and>
              jsGreaterZero P (getProp (getProp span ''status'') ''code'')
        then ERROR
      else if truthy (getProp span ''labels'') \<and>
              (truthy (getProp (getProp span ''labels'') ''/error/message'') \<or>
               truthy (getProp (getProp span ''labels'') ''error''))
        then ERROR
      else if truthy (getProp span ''labels'') \<and>
              truthy (getProp (getProp span ''labels'') ''/http/status_code'')
        then (case parseInt (toString (getProp (getProp span ''labels'') ''/http/status_code'')) of
                None \<Rightarrow> UNSPECIFIED
              | Some statusCode \<Rightarrow>
                  if 400 \<le> statusCode then ERROR
                  else if 200 \<le> statusCode then OK
                  else UNSPECIFIED)
      else UNSPECIFIED)"
proof -
  have "status t = resolveStatus P span"
    using assms(1) by (rule convertSpan_fields)
  then show ?thesis
    by (simp add: resolveStatus_def explicitStatus_def labelStatus_def split: option.splits)
qed

text \<open>Scenario C: no status field and the label \<open>/http/status_code\<close> 404 give ERROR.\<close>

theorem status_precedence_witness:
  "withinModel spanNotFound \<and>
   convertSpan samplePlatform spanNotFound = Inr convertedNotFound \<and>
   status convertedNotFound = ERROR"
proof -
  have w: "withinModel spanNotFound"
    by code_simp
  have c: "convertSpan samplePlatform spanNotFound = Inr convertedNotFound"
    by code_simp
  have p: "parseInt ''404'' = Some 404"
    by code_simp
  from status_precedence[OF c w] p have "status convertedNotFound = ERROR"
    by (simp add: spanNotFound_def)
  with c w show ?thesis
    by simp
qed

text \<open>
  The white space before the digits is skipped, also a no-break space: the label of
  \<open>spanNoBreakSpace\<close> reads as 404.
\<close>

lemma status_spanNoBreakSpace:
  "convertSpan samplePlatform spanNoBreakSpace =
     Inr \<lparr> spanId = JStr ''a'', displayName = ''HTTP Status: '' @ CHR 0xA0 # ''404'', startTime = JStr '''',
           endTime = JStr '''', kind = JStr ''UNSPECIFIED'', status = ERROR, parentSpanId = None,
           attributes = [(''/http/status_code'', JStr (CHR 0xA0 # ''404''))], childSpans = [] \<rparr>"
  by code_simp

text \<open>
  C9, as the claim states it, fails on \<open>spanEmptyError\<close>: the labels contain the key
  \<open>/error/message\<close>, and the status is UNSPECIFIED, since the code tests the value of
  the label for truthiness and the empty string is falsy.
\<close>

theorem error_key_present_counterexample:
  "convertSpan samplePlatform spanEmptyError =
     Inr \<lparr> spanId = JStr ''a'', displayName = ''Unknown Span (ID: a)'', startTime = JStr '''',
           endTime = JStr '''', kind = JStr ''UNSPECIFIED'', status = UNSPECIFIED,
           parentSpanId = None, attributes = [(''/error/message'', JStr '''')], childSpans = [] \<rparr>"
  by (simp add: spanEmptyError_def convert_defs)

subsection \<open>Attributes\<close>

lemma fold_assign_other:
  "k \<notin> fst ` set es \<Longrightarrow>
   map_of (fold (\<lambda>(key, v) a. if c v then assignProperty a key (f v) else a) es a0) k = map_of a0 k"
  by (induction es arbitrary: a0) (auto simp: assignProperty_def update_conv')

lemma fold_assign_last:
  "(k, v) \<in> set es \<Longrightarrow> distinct (map fst es) \<Longrightarrow> c v \<Longrightarrow> k \<noteq> ''__proto__'' \<Longrightarrow>
   map_of (fold (\<lambda>(key, v) a. if c v then assignProperty a key (f v) else a) es a0) k = Some (f v)"
proof (induction es arbitrary: a0)
  case Nil
  then show ?case by simp
next
  case (Cons e es)
  obtain k' v' where e: "e = (k', v')" by (cases e)
  show ?case
  proof (cases "k' = k")
    case True
    with Cons.prems e have "v' = v" and "k \<notin> fst ` set es"
      by (auto simp: image_iff)
    with True e Cons.prems(3,4) show ?thesis
      by (simp add: fold_assign_other assignProperty_def update_conv')
  next
    case False
    with Cons e show ?thesis by auto
  qed
qed

lemma fold_assign_proto:
  "map_of a0 ''__proto__'' = None \<Longrightarrow>
   map_of (fold (\<lambda>(key, v) a. if c v then assignProperty a key (f v) else a) es a0) ''__proto__'' = None"
  by (induction es arbitrary: a0) (auto simp: assignProperty_def update_conv')

lemma mapAttributes_proto: "map_of (mapAttributes span) ''__proto__'' = None"
  by (simp add: mapAttributes_def flattenLabels_def flattenAttributeMap_def Let_def fold_assign_proto)

lemma flattenOther_other:
  assumes "\<not> startsWith k ''raw.''"
  shows "map_of (flattenOther P attrs span) k = map_of attrs k"
proof -
  have "map_of (fold (\<lambda>(key, v) a.
             if key \<in> set standardKeys then a
             else (case rawFieldText P v of
                     None \<Rightarrow> a
                   | Some txt \<Rightarrow> assignProperty a (''raw.'' @ key) (JStr txt))) es a0) k = map_of a0 k"
    for es a0
    using assms
    by (induction es arbitrary: a0)
       (auto simp: assignProperty_def update_conv' startsWith_def split: option.splits)
  then show ?thesis by (simp add: flattenOther_def)
qed

lemma rawFieldText_None: "(rawFieldText P v = None) = (isNullish v \<or> isArray v)"
  by (cases v) (simp_all add: rawFieldText_def)

lemma flattenOther_keys:
  "fst ` set (flattenOther P attrs span) =
     fst ` set attrs \<union>
     {''raw.'' @ key | key v. (key, v) \<in> set (objectEntries span) \<and> key \<notin> set standardKeys \<and>
                          \<not> isNullish v \<and> \<not> isArray v}"
proof -
  have "fst ` set (fold (\<lambda>(key, v) a.
             if key \<in> set standardKeys then a
             else (case rawFieldText P v of
                     None \<Rightarrow> a
                   | Some txt \<Rightarrow> assignProperty a (''raw.'' @ key) (JStr txt))) es a0) =
     fst ` set a0 \<union>
     {''raw.'' @ key | key v. (key, v) \<in> set es \<and> key \<notin> set standardKeys \<and>
                          \<not> isNullish v \<and> \<not> isArray v}" for es a0
  proof (induction es arbitrary: a0)
    case Nil
    then show ?case by simp
  next
    case (Cons e es)
    obtain k' v' where e: "e = (k', v')" by (cases e)
    show ?case
      unfolding e using rawFieldText_None[of P v']
      by (auto simp: Cons.IH dom_update assignProperty_def split: option.splits)
  qed
  then show ?thesis by (simp add: flattenOther_def)
qed

text \<open>
  C4, as the code has it. The three sources are written one after the other by plain
  assignment, so a later source overwrites an earlier one: on a span within the model, a
  key of the attribute map whose value is not null takes the value extracted from the
  attribute map, whatever the label map holds under that key, unless the key begins with
  \<open>raw.\<close> (the third source writes only such keys) or is \<^verbatim>\<open>__proto__\<close>, under
  which no source ever stores an attribute.
\<close>

theorem attribute_map_overwrites_labels:
  assumes "convertSpan P span = Inr t"
    and "withinModel span"
    and "truthy (getProp span ''attributes'')"
    and "truthy (getProp (getProp span ''attributes'') ''attributeMap'')"
    and "distinct (map fst (objectEntries (getProp (getProp span ''attributes'') ''attributeMap'')))"
    and "(k, v) \<in> set (objectEntries (getProp (getProp span ''attributes'') ''attributeMap''))"
    and "\<not> isNullish v"
    and "\<not> startsWith k ''raw.''"
    and "k \<noteq> ''__proto__''"
  shows "map_of (attributes t) k = Some (attributeValue v)
       \<and> map_of (attributes t) ''__proto__'' = None"
proof -
  have "map_of (attributes t) k = map_of (mapAttributes span) k"
    using assms(1,8) by (simp add: convertSpan_fields resolveAttributes_def flattenOther_other)
  also have "\<dots> = Some (attributeValue v)"
    using assms(3,4)
      fold_assign_last[where c = "\<lambda>v. \<not> isNullish v" and f = attributeValue,
        OF assms(6) assms(5) assms(7) assms(9)]
    by (simp add: mapAttributes_def flattenAttributeMap_def Let_def)
  finally have val: "map_of (attributes t) k = Some (attributeValue v)" .
  have "map_of (attributes t) ''__proto__'' = map_of (mapAttributes span) ''__proto__''"
    using assms(1) by (simp add: convertSpan_fields resolveAttributes_def flattenOther_other startsWith_def)
  with val show ?thesis
    by (simp add: mapAttributes_proto)
qed

text \<open>On \<open>spanBothMaps\<close> the attribute \<open>k\<close> is the value of the attribute map.\<close>

theorem attribute_map_overwrites_labels_witness:
  "withinModel spanBothMaps
   \<and> map_of (attributes \<lparr> spanId = JStr ''a'', displayName = ''k: from-labels'', startTime = JStr '''',
                        endTime = JStr '''', kind = JStr ''UNSPECIFIED'', status = UNSPECIFIED,
                        parentSpanId = None, attributes = [(''k'', JStr ''from-map'')],
                        childSpans = [] \<rparr>) ''k''
     = Some (attributeValue (JObj [(''stringValue'', JStr ''from-map'')]))"
proof -
  have w: "withinModel spanBothMaps"
    by code_simp
  have c: "convertSpan samplePlatform spanBothMaps =
      Inr \<lparr> spanId = JStr ''a'', displayName = ''k: from-labels'', startTime = JStr '''',
            endTime = JStr '''', kind = JStr ''UNSPECIFIED'', status = UNSPECIFIED,
            parentSpanId = None, attributes = [(''k'', JStr ''from-map'')], childSpans = [] \<rparr>"
    by code_simp
  have "map_of (attributes \<lparr> spanId = JStr ''a'', displayName = ''k: from-labels'', startTime = JStr '''',
                        endTime = JStr '''', kind = JStr ''UNSPECIFIED'', status = UNSPECIFIED,
                        parentSpanId = None, attributes = [(''k'', JStr ''from-map'')],
                        childSpans = [] \<rparr>) ''k''
     = Some (attributeValue (JObj [(''stringValue'', JStr ''from-map'')]))
     \<and> map_of (attributes \<lparr> spanId = JStr ''a'', displayName = ''k: from-labels'', startTime = JStr '''',
                        endTime = JStr '''', kind = JStr ''UNSPECIFIED'', status = UNSPECIFIED,
                        parentSpanId = None, attributes = [(''k'', JStr ''from-map'')],
                        childSpans = [] \<rparr>) ''__proto__'' = None"
    by (rule attribute_map_overwrites_labels[OF c w, of "''k''"])
       (simp_all add: spanBothMaps_def startsWith_def)
  with w show ?thesis
    by simp
qed

text \<open>
  An assignment under the key \<^verbatim>\<open>__proto__\<close> stores nothing: of the two maps of
  \<open>spanProtoKey\<close> only the label \<open>k\<close> becomes an attribute.
\<close>

lemma attributes_spanProtoKey:
  "convertSpan samplePlatform spanProtoKey =
     Inr \<lparr> spanId = JStr ''a'', displayName = ''__proto__: from-labels'', startTime = JStr '''',
           endTime = JStr '''', kind = JStr ''UNSPECIFIED'', status = UNSPECIFIED,
           parentSpanId = None, attributes = [(''k'', JStr ''v'')], childSpans = [] \<rparr>"
  by code_simp

text \<open>
  C4, as the claim states it, fails on \<open>spanBothMaps\<close>: the label map wrote
  \<open>from-labels\<close> under \<open>k\<close> first, and the canonical span holds \<open>from-map\<close>.
\<close>

theorem first_writer_wins_counterexample:
  "convertSpan samplePlatform spanBothMaps =
     Inr \<lparr> spanId = JStr ''a'', displayName = ''k: from-labels'', startTime = JStr '''',
           endTime = JStr '''', kind = JStr ''UNSPECIFIED'', status = UNSPECIFIED,
           parentSpanId = None, attributes = [(''k'', JStr ''from-map'')], childSpans = [] \<rparr>"
  by (simp add: spanBothMaps_def convert_defs)

text \<open>
  C10. The third source writes exactly the keys \<open>raw.\<close> followed by the name of a
  top-level field that is not a standard field and whose value is neither null,
  undefined nor an array; it changes no entry whose key does not begin with \<open>raw.\<close>.
\<close>

theorem other_fields_prefixed_raw:
  "fst ` set (resolveAttributes P span) =
     fst ` set (mapAttributes span) \<union>
     {''raw.'' @ key | key v. (key, v) \<in> set (objectEntries span) \<and> key \<notin> set standardKeys \<and>
                          \<not> isNullish v \<and> \<not> isArray v}
   \<and> (\<forall>k. \<not> startsWith k ''raw.'' \<longrightarrow>
          map_of (resolveAttributes P span) k = map_of (mapAttributes span) k)"
  by (simp add: resolveAttributes_def flattenOther_keys flattenOther_other)

text \<open>
  On \<open>spanExtraFields\<close> the label \<open>k\<close> is kept, and the keys are those of the
  labels and \<open>raw.retries\<close>; the array \<open>links\<close> leaves no entry.
\<close>

theorem other_fields_prefixed_raw_witness:
  "\<not> startsWith ''k'' ''raw.''
   \<and> map_of (resolveAttributes samplePlatform spanExtraFields) ''k'' =
       map_of (mapAttributes spanExtraFields) ''k''
   \<and> map fst (resolveAttributes samplePlatform spanExtraFields) = [''k'', ''raw.retries'']"
proof -
  have h: "\<not> startsWith ''k'' ''raw.''"
    by (simp add: startsWith_def)
  have k: "map fst (resolveAttributes samplePlatform spanExtraFields) = [''k'', ''raw.retries'']"
    by code_simp
  from other_fields_prefixed_raw[of samplePlatform spanExtraFields] h k show ?thesis
    by blast
qed

section \<open>Properties of the hierarchy builder\<close>

subsection \<open>The index\<close>

lemma mapGet_mapSet:
  "mapGet (mapSet m k v) k' = (if sameValueZero k k' then Some v else mapGet m k')"
  by (induction m) (auto simp: sameValueZero_def)

lemma indexSpans_Some:
  "mapGet (indexSpans m i ts) k = Some j \<Longrightarrow> mapGet m k = Some j \<or> (i \<le> j \<and> j < i + length ts)"
proof (induction ts arbitrary: m i)
  case Nil
  then show ?case by simp
next
  case (Cons t ts)
  from Cons.prems have "mapGet (indexSpans (mapSet m (spanId t) i) (Suc i) ts) k = Some j"
    by simp
  from Cons.IH[OF this] show ?case
    by (auto simp: mapGet_mapSet split: if_splits)
qed

lemma indexSpans_None:
  "(mapGet (indexSpans m i ts) k = None) =
   (mapGet m k = None \<and> (\<forall>t \<in> set ts. \<not> sameValueZero (spanId t) k))"
  by (induction ts arbitrary: m i) (auto simp: mapGet_mapSet)

lemma indexSpans_cong:
  "map spanId ts = map spanId ts' \<Longrightarrow> indexSpans m i ts = indexSpans m i ts'"
proof (induction ts arbitrary: ts' m i)
  case Nil
  then show ?case by simp
next
  case (Cons t ts)
  then obtain t' us where "ts' = t' # us" by (cases ts') auto
  with Cons show ?case by auto
qed

lemma parentIndex_less: "parentIndex ts i = Some p \<Longrightarrow> p < length ts"
  by (auto simp: parentIndex_def split: option.splits dest: indexSpans_Some)

lemma parentIndex_cong:
  assumes "map spanId ts = map spanId ts'" "parentSpanId (ts ! i) = parentSpanId (ts' ! i)"
  shows "parentIndex ts i = parentIndex ts' i"
  using assms(2) indexSpans_cong[OF assms(1), of "[]" 0]
  by (simp add: parentIndex_def split: option.splits)

lemma sameValueZero_jsOr:
  "truthy parent \<Longrightarrow>
   sameValueZero (jsOr sid (JStr '''')) parent = (\<not> isObjectLike parent \<and> sid = parent)"
  by (cases sid; cases parent) (auto simp: sameValueZero_def jsOr_def)

subsection \<open>The link pass\<close>

lemma length_linked: "length (linked ts k) = length ts"
  by (simp add: linked_def)

lemma nth_linked:
  "j < length ts \<Longrightarrow>
   linked ts k ! j = (ts ! j)\<lparr>childSpans := filter (\<lambda>i. parentIndex ts i = Some j) [0..<k]\<rparr>"
  by (simp add: linked_def)

lemma linked_Suc:
  assumes "k < length ts"
  shows "linked ts (Suc k) =
     (case parentIndex ts k of None \<Rightarrow> linked ts k | Some p \<Rightarrow> pushChild (linked ts k) p k)"
proof (cases "parentIndex ts k")
  case None
  then show ?thesis by (simp add: linked_def)
next
  case (Some p)
  then have pl: "p < length ts" by (rule parentIndex_less)
  have "pushChild (linked ts k) p k = linked ts (Suc k)"
  proof (rule nth_equalityI)
    show "length (pushChild (linked ts k) p k) = length (linked ts (Suc k))"
      by (simp add: pushChild_def linked_def)
  next
    fix i assume "i < length (pushChild (linked ts k) p k)"
    then have "i < length ts" by (simp add: pushChild_def linked_def)
    then show "pushChild (linked ts k) p k ! i = linked ts (Suc k) ! i"
      using pl Some by (auto simp: pushChild_def linked_def nth_list_update)
  qed
  with Some show ?thesis by simp
qed

text \<open>The state of the loop after the spans before \<open>k\<close>.\<close>

lemma linkPass_prefix:
  assumes empty: "\<forall>j<length ts. childSpans (ts ! j) = []"
    and k: "k \<le> length ts"
  shows "fold (linkStep (indexSpans [] 0 ts)) [0..<k] (ts, [], 0) =
     (linked ts k,
      filter (\<lambda>i. parentIndex ts i = None) [0..<k],
      length (filter (\<lambda>i. parentSpanId (ts ! i) \<noteq> None) [0..<k]))"
  using k
proof (induction k)
  case 0
  have "linked ts 0 = ts"
  proof (rule nth_equalityI)
    show "length (linked ts 0) = length ts" by (simp add: linked_def)
  next
    fix i assume "i < length (linked ts 0)"
    then show "linked ts 0 ! i = ts ! i"
      using empty by (simp add: linked_def)
  qed
  then show ?case by simp
next
  case (Suc k)
  then have kl: "k < length ts" by simp
  have hk: "parentSpanId (linked ts k ! k) = parentSpanId (ts ! k)"
    using kl by (simp add: nth_linked)
  show ?case
  proof (cases "parentIndex ts k")
    case None
    then have "parentSpanId (ts ! k) = None \<or>
        (\<exists>parent. parentSpanId (ts ! k) = Some parent \<and> mapGet (indexSpans [] 0 ts) parent = None)"
      by (auto simp: parentIndex_def split: option.splits)
    then show ?thesis
      using Suc kl None hk by (auto simp: linkStep_def linked_Suc)
  next
    case (Some p)
    then obtain parent where "parentSpanId (ts ! k) = Some parent"
      "mapGet (indexSpans [] 0 ts) parent = Some p"
      by (auto simp: parentIndex_def split: option.splits)
    then show ?thesis
      using Suc kl Some hk by (auto simp: linkStep_def linked_Suc)
  qed
qed

lemma linkPass_eq:
  assumes "\<forall>j<length ts. childSpans (ts ! j) = []"
  shows "linkPass (indexSpans [] 0 ts) ts =
     (linked ts (length ts), rootsOf ts,
      length (filter (\<lambda>i. parentSpanId (ts ! i) \<noteq> None) [0..<length ts]))"
  unfolding linkPass_def rootsOf_def by (rule linkPass_prefix[OF assms]) simp

lemma linkPass_lookups:
  "length (filter (\<lambda>i. parentSpanId (ts ! i) \<noteq> None) [0..<length ts]) \<le> length ts"
  using length_filter_le[of "\<lambda>i. parentSpanId (ts ! i) \<noteq> None" "[0..<length ts]"] by simp

lemma mset_children_update:
  "p < length h \<Longrightarrow>
   mset (concat (map childSpans (h[p := (h ! p)\<lparr>childSpans := childSpans (h ! p) @ [i]\<rparr>]))) =
   add_mset i (mset (concat (map childSpans h)))"
proof (induction h arbitrary: p)
  case Nil
  then show ?case by simp
next
  case (Cons s h)
  then show ?case by (cases p) simp_all
qed

lemma mset_linked:
  "k \<le> length ts \<Longrightarrow>
   mset (filter (\<lambda>i. parentIndex ts i = None) [0..<k]) + mset (concat (map childSpans (linked ts k)))
   = mset [0..<k]"
proof (induction k)
  case 0
  have "concat (map childSpans (linked ts 0)) = []"
    by (simp add: linked_def comp_def)
  then show ?case by simp
next
  case (Suc k)
  then have kl: "k < length ts" by simp
  show ?case
  proof (cases "parentIndex ts k")
    case None
    with Suc kl show ?thesis by (simp add: linked_Suc)
  next
    case (Some p)
    then have "p < length (linked ts k)" by (simp add: length_linked parentIndex_less)
    from mset_children_update[OF this, of k] Some Suc kl show ?thesis
      by (simp add: linked_Suc pushChild_def)
  qed
qed

subsection \<open>The sort\<close>

lemma stableSort_Nil: "stableSort cmp [] = []"
  by (simp add: stableSort_def)

lemma stableSort_Cons: "stableSort cmp (x # xs) = insertBy cmp x (stableSort cmp xs)"
  by (simp add: stableSort_def)


lemma mset_insertBy: "mset (insertBy cmp x ys) = add_mset x (mset ys)"
  by (induction ys) auto

lemma mset_stableSort: "mset (stableSort cmp xs) = mset xs"
  by (induction xs) (simp_all add: stableSort_Cons stableSort_Nil mset_insertBy)

lemma set_stableSort: "set (stableSort cmp xs) = set xs"
  by (rule mset_eq_setD) (rule mset_stableSort)

lemma insertBy_cong:
  "(\<And>y. y \<in> set ys \<Longrightarrow> cmp x y = cmp' x y) \<Longrightarrow> insertBy cmp x ys = insertBy cmp' x ys"
  by (induction ys) auto

lemma stableSort_cong:
  "(\<And>x y. x \<in> set xs \<Longrightarrow> y \<in> set xs \<Longrightarrow> cmp x y = cmp' x y) \<Longrightarrow>
   stableSort cmp xs = stableSort cmp' xs"
proof (induction xs)
  case Nil
  then show ?case by (simp add: stableSort_Nil)
next
  case (Cons x xs)
  then have "stableSort cmp xs = stableSort cmp' xs" by simp
  moreover have "insertBy cmp x (stableSort cmp' xs) = insertBy cmp' x (stableSort cmp' xs)"
    by (rule insertBy_cong) (simp add: set_stableSort Cons.prems)
  ultimately show ?case by (simp add: stableSort_Cons)
qed





text \<open>
  The sort reads the comparator on the elements of the array only. A comparator that is
  the difference of a key is consistent, and so is one that is \<open>0\<close> throughout.
\<close>

lemma consistentOn_cong:
  assumes "\<And>x y. x \<in> set xs \<Longrightarrow> y \<in> set xs \<Longrightarrow> cmp x y = cmp' x y"
  shows "consistentOn cmp xs = consistentOn cmp' xs"
  using assms by (simp add: consistentOn_def list_all_iff cong: ball_cong)

lemma compareTable_cong:
  assumes "\<And>x y. x \<in> set xs \<Longrightarrow> y \<in> set xs \<Longrightarrow> cmp x y = cmp' x y"
  shows "compareTable cmp xs = compareTable cmp' xs"
  using assms by (simp add: compareTable_def cong: map_cong)

lemma arraySort_cong:
  assumes "\<And>x y. x \<in> set xs \<Longrightarrow> y \<in> set xs \<Longrightarrow> cmp x y = cmp' x y"
  shows "arraySort P cmp xs = arraySort P cmp' xs"
  using consistentOn_cong[of xs cmp cmp', OF assms] compareTable_cong[of xs cmp cmp', OF assms]
    stableSort_cong[of xs cmp cmp', OF assms]
  by (simp add: arraySort_def)



lemma arraySort_Nil: "arraySort P cmp [] = []"
  by (simp add: arraySort_def consistentOn_def stableSort_Nil)

lemma mset_arraySort: "mset (arraySort P cmp xs) = mset xs"
proof -
  have "mset (map (\<lambda>i. xs ! i) order) = mset xs" if "sort order = [0..<length xs]" for order
  proof -
    have "mset order = mset (sort order)"
      by simp
    also have "\<dots> = mset [0..<length xs]"
      by (simp only: that)
    finally have "mset (map (\<lambda>i. xs ! i) order) = mset (map (\<lambda>i. xs ! i) [0..<length xs])"
      by simp
    then show ?thesis
      by (simp add: map_nth)
  qed
  then show ?thesis
    by (simp add: arraySort_def mset_stableSort Let_def)
qed

lemma set_arraySort: "set (arraySort P cmp xs) = set xs"
  by (rule mset_eq_setD) (rule mset_arraySort)



lemma compareStart_cong:
  "startTime (h ! a) = startTime (h' ! a) \<Longrightarrow> startTime (h ! b) = startTime (h' ! b) \<Longrightarrow>
   compareStart P h a b = compareStart P h' a b"
  by (simp add: compareStart_def split: option.splits)



subsection \<open>The sort pass\<close>

lemma length_sortedUpTo: "length (sortedUpTo P heap k) = length heap"
  by (simp add: sortedUpTo_def)

lemma nth_sortedUpTo:
  "j < length heap \<Longrightarrow>
   sortedUpTo P heap k ! j =
     (if j < k
      then (heap ! j)\<lparr>childSpans := arraySort P (compareStart P heap) (childSpans (heap ! j))\<rparr>
      else heap ! j)"
  by (simp add: sortedUpTo_def)

lemma sortedUpTo_0: "sortedUpTo P heap 0 = heap"
  by (rule nth_equalityI) (simp_all add: length_sortedUpTo nth_sortedUpTo)

text \<open>Round \<open>k\<close> of the loop, after the rounds before it.\<close>

lemma sortStep_sortedUpTo:
  assumes valid: "\<forall>j<length heap. \<forall>c \<in> set (childSpans (heap ! j)). c < length heap"
    and kl: "k < length heap"
  shows "sortStep P k (sortedUpTo P heap k) =
     (if stepThrows heap k then Inl TypeError else Inr (sortedUpTo P heap (Suc k)))"
proof -
  let ?h = "sortedUpTo P heap k"
  have hk: "?h ! k = heap ! k"
    using kl by (simp add: nth_sortedUpTo)
  have st: "startTime (?h ! a) = startTime (heap ! a)" if "a < length heap" for a
    using that by (simp add: nth_sortedUpTo)
  have "list_ex (startThrows ?h) (childSpans (heap ! k)) =
        list_ex (startThrows heap) (childSpans (heap ! k))"
    unfolding list_ex_iff using valid kl st by (auto simp: startThrows_def)
  then have throws: "(2 \<le> length (childSpans (?h ! k)) \<and> list_ex (startThrows ?h) (childSpans (?h ! k))) =
      stepThrows heap k"
    by (simp add: hk stepThrows_def)
  have srt: "arraySort P (compareStart P ?h) (childSpans (heap ! k)) =
             arraySort P (compareStart P heap) (childSpans (heap ! k))"
    by (rule arraySort_cong, rule compareStart_cong) (use valid kl st in auto)
  have upd: "?h[k := (?h ! k)\<lparr>childSpans := arraySort P (compareStart P ?h) (childSpans (?h ! k))\<rparr>] =
        sortedUpTo P heap (Suc k)"
  proof (rule nth_equalityI)
    show "length (?h[k := (?h ! k)\<lparr>childSpans := arraySort P (compareStart P ?h) (childSpans (?h ! k))\<rparr>]) =
          length (sortedUpTo P heap (Suc k))"
      by (simp add: length_sortedUpTo)
  next
    fix i
    assume "i < length (?h[k := (?h ! k)\<lparr>childSpans := arraySort P (compareStart P ?h) (childSpans (?h ! k))\<rparr>])"
    then have il: "i < length heap" by (simp add: length_sortedUpTo)
    show "?h[k := (?h ! k)\<lparr>childSpans := arraySort P (compareStart P ?h) (childSpans (?h ! k))\<rparr>] ! i =
          sortedUpTo P heap (Suc k) ! i"
      using il kl hk srt by (auto simp: nth_list_update nth_sortedUpTo length_sortedUpTo)
  qed
  have same: "?h = sortedUpTo P heap (Suc k)" if "childSpans (heap ! k) = []"
  proof -
    have "(?h ! k)\<lparr>childSpans := arraySort P (compareStart P ?h) (childSpans (?h ! k))\<rparr> = ?h ! k"
      using that by (simp add: hk arraySort_Nil)
    with upd show ?thesis
      by (simp add: list_update_id)
  qed
  show ?thesis
  proof (cases "childSpans (heap ! k) = []")
    case True
    then have s: "sortStep P k ?h = Inr ?h"
      by (simp add: sortStep_def hk)
    from True have n: "\<not> stepThrows heap k"
      by (simp add: stepThrows_def)
    show ?thesis
      unfolding s using n same[OF True] by simp
  next
    case False
    then have "childSpans (?h ! k) \<noteq> []"
      by (simp add: hk)
    then have "sortStep P k ?h =
        (if stepThrows heap k then Inl TypeError
         else Inr (?h[k := (?h ! k)\<lparr>childSpans :=
                     arraySort P (compareStart P ?h) (childSpans (?h ! k))\<rparr>]))"
      unfolding sortStep_def throws by simp
    then show ?thesis
      by (simp only: upd)
  qed
qed

lemma sortPass_prefix:
  assumes valid: "\<forall>j<length heap. \<forall>c \<in> set (childSpans (heap ! j)). c < length heap"
    and k: "k \<le> length heap"
  shows "fold (\<lambda>i acc. case acc of Inl e \<Rightarrow> Inl e | Inr h \<Rightarrow> sortStep P i h) [0..<k] (Inr heap) =
     (if \<exists>j<k. stepThrows heap j then Inl TypeError else Inr (sortedUpTo P heap k))"
  using k
proof (induction k)
  case 0
  then show ?case by (simp add: sortedUpTo_0)
next
  case (Suc k)
  then have kl: "k < length heap" by simp
  show ?case
  proof (cases "\<exists>j<k. stepThrows heap j")
    case True
    then have "\<exists>j<Suc k. stepThrows heap j"
      using less_Suc_eq by blast
    with True Suc show ?thesis by simp
  next
    case False
    then have eq: "(\<exists>j<Suc k. stepThrows heap j) = stepThrows heap k"
      using less_Suc_eq by auto
    from False Suc kl
    have "fold (\<lambda>i acc. case acc of Inl e \<Rightarrow> Inl e | Inr h \<Rightarrow> sortStep P i h) [0..<k] (Inr heap) =
        Inr (sortedUpTo P heap k)"
      by simp
    then show ?thesis
      by (simp add: sortStep_sortedUpTo[OF valid kl] eq)
  qed
qed

lemma childrenOf_less: "c \<in> set (childrenOf ts j) \<Longrightarrow> c < length ts"
  by (simp add: childrenOf_def)

lemma sortPass_linked:
  "sortPass P (linked ts (length ts)) = (if sortThrows ts then Inl TypeError else Inr (hierarchy P ts))"
proof -
  let ?h = "linked ts (length ts)"
  have valid: "\<forall>j<length ?h. \<forall>c \<in> set (childSpans (?h ! j)). c < length ?h"
    by (simp add: length_linked nth_linked)
  have "stepThrows ?h j =
        (2 \<le> length (childrenOf ts j) \<and> list_ex (startThrows ts) (childrenOf ts j))"
    if "j < length ts" for j
  proof -
    have "list_ex (startThrows ?h) (childrenOf ts j) = list_ex (startThrows ts) (childrenOf ts j)"
      unfolding list_ex_iff by (auto simp: startThrows_def nth_linked childrenOf_less)
    then show ?thesis
      using that by (simp add: stepThrows_def nth_linked childrenOf_def)
  qed
  then have "(\<exists>j. j < length ts \<and> stepThrows ?h j) =
      (\<exists>j. j < length ts \<and> 2 \<le> length (childrenOf ts j) \<and> list_ex (startThrows ts) (childrenOf ts j))"
    by (simp cong: conj_cong)
  then have throws: "(\<exists>j<length ?h. stepThrows ?h j) = sortThrows ts"
    by (simp add: sortThrows_def list_ex_iff[of _ "[0..<length ts]"] Bex_def length_linked)
  have "sortedUpTo P ?h (length ?h) = hierarchy P ts"
  proof (rule nth_equalityI)
    show "length (sortedUpTo P ?h (length ?h)) = length (hierarchy P ts)"
      by (simp add: length_sortedUpTo length_linked hierarchy_def)
  next
    fix j assume "j < length (sortedUpTo P ?h (length ?h))"
    then have jl: "j < length ts" by (simp add: length_sortedUpTo length_linked)
    have "arraySort P (compareStart P ?h) (childrenOf ts j) =
          arraySort P (compareStart P ts) (childrenOf ts j)"
      by (rule arraySort_cong, rule compareStart_cong)
         (simp_all add: nth_linked childrenOf_less)
    then show "sortedUpTo P ?h (length ?h) ! j = hierarchy P ts ! j"
      using jl by (simp add: nth_sortedUpTo length_linked nth_linked hierarchy_def childrenOf_def)
  qed
  with throws show ?thesis
    unfolding sortPass_def by (simp add: sortPass_prefix[OF valid])
qed

subsection \<open>The trace returned\<close>

lemma buildTraceHierarchy_eq:
  assumes "convertSpans P spans = Inr ts"
  shows "buildTraceHierarchy P fuel projId trId spans =
     (if sortThrows ts then Inl TypeError
      else if list_all (\<lambda>r. countDescendants fuel (hierarchy P ts) r 0 \<noteq> None) (rootsOf ts)
      then Inr \<lparr> traceId = trId, projectId = projId, rootSpans = rootsOf ts,
                 allSpans = hierarchy P ts \<rparr>
      else Inl RangeError)"
proof -
  have "\<forall>j<length ts. childSpans (ts ! j) = []"
    using convertSpans_Inr[OF assms] by (auto intro: convertSpan_noChildren)
  from linkPass_eq[OF this] assms show ?thesis
    by (simp add: buildTraceHierarchy_def sortPass_linked)
qed


text \<open>
  The sort pass does not throw when every value of the input converts to a primitive
  value.
\<close>

lemma convertsToPrimitive_getProp: "convertsToPrimitive v \<Longrightarrow> convertsToPrimitive (getProp v k)"
proof (cases v)
  case (JObj fs)
  assume "convertsToPrimitive v"
  with JObj have all: "\<forall>x \<in> set fs. convertsToPrimitive (snd x)"
    by (simp add: list_all_iff)
  show ?thesis
  proof (cases "map_of fs k")
    case None
    with JObj show ?thesis by simp
  next
    case (Some x)
    then have "(k, x) \<in> set fs" by (rule map_of_SomeD)
    with all have "convertsToPrimitive x" by force
    with JObj Some show ?thesis by simp
  qed
qed simp_all

lemma no_sortThrows:
  assumes "convertSpans P spans = Inr ts" and "list_all convertsToPrimitive spans"
  shows "\<not> sortThrows ts"
proof -
  from convertSpans_Inr[OF assms(1)] have len: "length ts = length spans"
    and conv: "\<And>j. j < length spans \<Longrightarrow> convertSpan P (spans ! j) = Inr (ts ! j)"
    by simp_all
  have "\<not> startThrows ts c" if "c < length ts" for c
  proof -
    from that len have cl: "c < length spans" by simp
    with assms(2) have "convertsToPrimitive (spans ! c)"
      by (simp add: list_all_length)
    then have "convertsToPrimitive (jsOr (getProp (spans ! c) ''startTime'') (JStr ''''))"
      by (simp add: jsOr_def convertsToPrimitive_getProp)
    then show ?thesis
      by (simp add: startThrows_def convertSpan_startTime[OF conv[OF cl]])
  qed
  then show ?thesis
    by (auto simp: sortThrows_def list_ex_iff childrenOf_less)
qed

lemma length_hierarchy: "length (hierarchy P ts) = length ts"
  by (simp add: hierarchy_def)

lemma nth_hierarchy:
  "j < length ts \<Longrightarrow>
   hierarchy P ts ! j = (ts ! j)\<lparr>childSpans := arraySort P (compareStart P ts) (childrenOf ts j)\<rparr>"
  by (simp add: hierarchy_def)

lemma spanId_hierarchy: "map spanId (hierarchy P ts) = map spanId ts"
  by (rule nth_equalityI) (simp_all add: length_hierarchy nth_hierarchy)


lemma parentIndex_hierarchy:
  "i < length ts \<Longrightarrow> parentIndex (hierarchy P ts) i = parentIndex ts i"
  by (rule parentIndex_cong) (simp_all add: spanId_hierarchy nth_hierarchy)

lemma set_children_hierarchy:
  "j < length ts \<Longrightarrow>
   set (childSpans (hierarchy P ts ! j)) = {i. i < length ts \<and> parentIndex ts i = Some j}"
  by (auto simp: nth_hierarchy set_arraySort childrenOf_def)


lemma set_rootsOf: "set (rootsOf ts) = {i. i < length ts \<and> parentIndex ts i = None}"
  by (auto simp: rootsOf_def)

lemma root_iff:
  assumes "i < length ts"
  shows "(i \<in> set (rootsOf ts)) =
     (case parentSpanId (ts ! i) of
        None \<Rightarrow> True
      | Some parent \<Rightarrow> \<forall>j<length ts. \<not> sameValueZero (spanId (ts ! j)) parent)"
  using assms
  by (auto simp: set_rootsOf parentIndex_def indexSpans_None all_set_conv_all_nth split: option.splits)




subsection \<open>The parent references of the input\<close>







subsection \<open>Following the parent references\<close>

lemma climb_add:
  "climb ts (a + b) i = (case climb ts a i of None \<Rightarrow> None | Some j \<Rightarrow> climb ts b j)"
  by (induction a arbitrary: i) (auto split: option.splits)

lemma climb_None_mono:
  assumes "climb ts a i = None" "a \<le> b"
  shows "climb ts b i = None"
proof -
  from assms(2) obtain c where "b = a + c" by (auto simp: le_iff_add)
  with assms(1) show ?thesis by (simp add: climb_add)
qed

lemma climb_less: "i < length ts \<Longrightarrow> climb ts k i = Some j \<Longrightarrow> j < length ts"
  by (induction k arbitrary: i) (auto split: option.splits dest: parentIndex_less)









text \<open>
  A span \<open>d\<close> parent references below a span without parent: the \<open>d + 1\<close> spans on
  the way up are pairwise different, so \<open>d\<close> is less than the number of spans.
\<close>

lemma depth_bound:
  assumes il: "i < length ts" and d: "climb ts d i = Some r" and r: "parentIndex ts r = None"
  shows "d < length ts"
proof -
  define f where "f k = the (climb ts k i)" for k
  have some: "climb ts k i = Some (f k)" if "k \<le> d" for k
  proof (cases "climb ts k i")
    case None
    from climb_None_mono[OF None that] d show ?thesis by simp
  next
    case (Some x)
    then show ?thesis by (simp add: f_def)
  qed
  have down: "climb ts (d - k) (f k) = Some r" if "k \<le> d" for k
  proof -
    have "climb ts (k + (d - k)) i = Some r" using that d by simp
    then show ?thesis unfolding climb_add by (simp add: some[OF that])
  qed
  have "inj_on f {..d}"
  proof (rule linorder_inj_onI)
    fix a b assume ab: "a < b" and "a \<in> {..d}" and "b \<in> {..d}"
    then have ad: "a \<le> d" and bd: "b \<le> d" by simp_all
    show "f a \<noteq> f b"
    proof
      assume eq: "f a = f b"
      have "climb ts ((d - b) + 1) (f b) = None"
        unfolding climb_add by (simp add: down[OF bd] r)
      moreover have "(d - b) + 1 \<le> d - a" using ab bd by simp
      ultimately have "climb ts (d - a) (f b) = None" by (rule climb_None_mono)
      with down[OF ad] eq show False by simp
    qed
  qed linarith
  moreover have "f ` {..d} \<subseteq> {..<length ts}"
    using climb_less[OF il some] by auto
  ultimately have "card {..d} \<le> card {..<length ts}"
    by (rule card_inj_on_le) simp
  then show ?thesis by simp
qed






subsection \<open>The descendant count\<close>

lemma fold_option_Some:
  "(\<And>c m. c \<in> set cs \<Longrightarrow> g c m \<noteq> None) \<Longrightarrow>
   fold (\<lambda>c acc. case acc of None \<Rightarrow> None | Some m \<Rightarrow> g c m) cs (Some a) \<noteq> None"
proof (induction cs arbitrary: a)
  case Nil
  then show ?case by simp
next
  case (Cons c cs)
  then obtain m where "g c a = Some m" by fastforce
  with Cons show ?case by simp
qed

lemma countDescendants_returns:
  assumes "i < length ts" and "climb ts d i = Some r" and "parentIndex ts r = None"
    and "length ts \<le> fuel + d"
  shows "countDescendants fuel (hierarchy P ts) i n \<noteq> None"
  using assms
proof (induction fuel arbitrary: i d n)
  case 0
  with depth_bound[OF "0.prems"(1,2,3)] show ?case by simp
next
  case (Suc fuel)
  have "countDescendants fuel (hierarchy P ts) c m \<noteq> None"
    if "c \<in> set (childSpans (hierarchy P ts ! i))" for c m
  proof -
    from that Suc.prems(1) have cl: "c < length ts" and p: "parentIndex ts c = Some i"
      by (simp_all add: set_children_hierarchy)
    from p Suc.prems(2) have "climb ts (Suc d) c = Some r" by simp
    from Suc.IH[OF cl this Suc.prems(3)] Suc.prems(4) show ?thesis by simp
  qed
  then show ?case
    by (simp only: countDescendants.simps) (rule fold_option_Some)
qed

lemma roots_counted:
  assumes "length ts \<le> fuel"
  shows "list_all (\<lambda>r. countDescendants fuel (hierarchy P ts) r 0 \<noteq> None) (rootsOf ts)"
  unfolding list_all_iff
proof
  fix r assume "r \<in> set (rootsOf ts)"
  then have "r < length ts" "parentIndex ts r = None" by (simp_all add: set_rootsOf)
  then show "countDescendants fuel (hierarchy P ts) r 0 \<noteq> None"
    using assms by (intro countDescendants_returns[where d = 0 and r = r]) simp_all
qed

text \<open>Called on a span that is its own child, the count returns for no fuel.\<close>

lemma countDescendants_cycle:
  "i \<in> set (childSpans (heap ! i)) \<Longrightarrow> countDescendants fuel heap i n = None"
proof (induction fuel arbitrary: n)
  case 0
  then show ?case by simp
next
  case (Suc fuel)
  have "fold (\<lambda>child acc. case acc of None \<Rightarrow> None | Some m \<Rightarrow> countDescendants fuel heap child m) cs a = None"
    if "a = None \<or> i \<in> set cs" for cs a
    using that
  proof (induction cs arbitrary: a)
    case Nil
    then show ?case by simp
  next
    case (Cons c cs)
    then show ?case using Suc.IH[OF Suc.prems] by (auto split: option.splits)
  qed
  with Suc.prems show ?case by simp
qed

text \<open>
  So the builder returns whenever the conversion of every span does, the values of the
  input convert to primitive values, and the fuel is at least the number of spans.
\<close>

lemma buildTraceHierarchy_returns:
  assumes "convertSpans P spans = Inr ts" and "list_all convertsToPrimitive spans"
    and "length spans \<le> fuel"
  shows "buildTraceHierarchy P fuel projId trId spans =
     Inr \<lparr> traceId = trId, projectId = projId, rootSpans = rootsOf ts, allSpans = hierarchy P ts \<rparr>"
proof -
  from convertSpans_Inr[OF assms(1)] assms(3) have "length ts \<le> fuel"
    by simp
  then have "list_all (\<lambda>r. countDescendants fuel (hierarchy P ts) r 0 \<noteq> None) (rootsOf ts)"
    by (rule roots_counted)
  with no_sortThrows[OF assms(1,2)] show ?thesis
    by (simp add: buildTraceHierarchy_eq[OF assms(1)])
qed

subsection \<open>Evaluations on the sample inputs\<close>

lemma build_spansParentChild:
  "buildTraceHierarchy samplePlatform 2 ''p'' ''t'' spansParentChild = Inr traceParentChild"
  by code_simp

lemma build_spansDangling:
  "buildTraceHierarchy samplePlatform 1 ''p'' ''t'' spansDangling = Inr traceDangling"
  by code_simp

lemma build_spansChildAndDangling:
  "buildTraceHierarchy samplePlatform 3 ''p'' ''t'' spansChildAndDangling = Inr traceChildAndDangling"
  by code_simp




lemma convert_spansTwoCycle: "convertSpans samplePlatform spansTwoCycle = Inr convertedTwoCycle"
  by code_simp

lemma convert_spansChildAndDangling:
  "convertSpans samplePlatform spansChildAndDangling = Inr convertedChildAndDangling"
  by code_simp



lemma length_spansTwoCycle: "length spansTwoCycle \<le> 2"
  by (simp add: spansTwoCycle_def)

subsection \<open>Roots\<close>

text \<open>
  C3. On an input whose values convert to primitive values, when the conversion of every
  span returns and the fuel is at least the number of spans, the builder returns a trace,
  and a span is in its \<^verbatim>\<open>rootSpans\<close> exactly when its parent id is falsy (absent,
  empty), or no span of the input has that id: a span with a dangling parent id becomes
  a root, and no error is raised. The ids are compared as keys of the index, so a parent
  id that is an object or an array equals no id. The roots are in the order of the
  input, each once.
\<close>

theorem root_correctness:
  assumes "list_all convertsToPrimitive spans"
    and "convertSpans P spans = Inr ts"
    and "length spans \<le> fuel"
  shows "\<exists>T. buildTraceHierarchy P fuel projId trId spans = Inr T
       \<and> rootSpans T = filter (\<lambda>i. i \<in> set (rootSpans T)) [0..<length spans]
       \<and> (\<forall>i<length spans.
            (i \<in> set (rootSpans T)) =
              (\<not> truthy (getProp (spans ! i) ''parentSpanId'') \<or>
               isObjectLike (getProp (spans ! i) ''parentSpanId'') \<or>
               (\<forall>j<length spans.
                  getProp (spans ! j) ''spanId'' \<noteq> getProp (spans ! i) ''parentSpanId'')))"
proof -
  from convertSpans_Inr[OF assms(2)] have len: "length ts = length spans"
    and conv: "\<And>j. j < length spans \<Longrightarrow> convertSpan P (spans ! j) = Inr (ts ! j)"
    by simp_all
  have ret: "buildTraceHierarchy P fuel projId trId spans =
      Inr \<lparr> traceId = trId, projectId = projId, rootSpans = rootsOf ts, allSpans = hierarchy P ts \<rparr>"
    using assms(2,1,3) by (rule buildTraceHierarchy_returns)
  have order: "rootsOf ts = filter (\<lambda>i. i \<in> set (rootsOf ts)) [0..<length spans]"
    unfolding rootsOf_def len by (rule filter_cong) simp_all
  have sid: "spanId (ts ! j) = jsOr (getProp (spans ! j) ''spanId'') (JStr '''')"
    if "j < length spans" for j
    using conv[OF that] by (rule convertSpan_fields)
  have iff: "(i \<in> set (rootsOf ts)) =
      (\<not> truthy (getProp (spans ! i) ''parentSpanId'') \<or>
       isObjectLike (getProp (spans ! i) ''parentSpanId'') \<or>
       (\<forall>j<length spans. getProp (spans ! j) ''spanId'' \<noteq> getProp (spans ! i) ''parentSpanId''))"
    if il: "i < length spans" for i
  proof -
    let ?parent = "getProp (spans ! i) ''parentSpanId''"
    have par: "parentSpanId (ts ! i) = (if truthy ?parent then Some ?parent else None)"
      using conv[OF il] by (rule convertSpan_fields)
    show ?thesis
    proof (cases "truthy ?parent")
      case False
      then show ?thesis
        using il len par by (simp add: root_iff)
    next
      case True
      have "(\<forall>j<length spans. \<not> sameValueZero (spanId (ts ! j)) ?parent) =
            (isObjectLike ?parent \<or> (\<forall>j<length spans. getProp (spans ! j) ''spanId'' \<noteq> ?parent))"
        using True by (auto simp: sid sameValueZero_jsOr)
      then show ?thesis
        using il len par True by (simp add: root_iff)
    qed
  qed
  from order iff show ?thesis
    unfolding ret by simp
qed

text \<open>
  Scenarios A and B: of the root, its child and the span with the dangling parent, the
  root and the span with the dangling parent are the roots.
\<close>

theorem root_correctness_witness:
  "list_all convertsToPrimitive spansChildAndDangling
   \<and> convertSpans samplePlatform spansChildAndDangling = Inr convertedChildAndDangling
   \<and> length spansChildAndDangling \<le> 3
   \<and> buildTraceHierarchy samplePlatform 3 ''p'' ''t'' spansChildAndDangling = Inr traceChildAndDangling
   \<and> 0 \<in> set (rootSpans traceChildAndDangling)
   \<and> 1 \<notin> set (rootSpans traceChildAndDangling)
   \<and> 2 \<in> set (rootSpans traceChildAndDangling)"
proof -
  have w: "list_all convertsToPrimitive spansChildAndDangling"
    by code_simp
  have l: "length spansChildAndDangling \<le> 3"
    by (simp add: spansChildAndDangling_def)
  note ts = convert_spansChildAndDangling
  from root_correctness[OF w ts l, of "''p''" "''t''"] build_spansChildAndDangling
  have iff: "\<forall>i<length spansChildAndDangling.
      (i \<in> set (rootSpans traceChildAndDangling)) =
        (\<not> truthy (getProp (spansChildAndDangling ! i) ''parentSpanId'') \<or>
         isObjectLike (getProp (spansChildAndDangling ! i) ''parentSpanId'') \<or>
         (\<forall>j<length spansChildAndDangling.
            getProp (spansChildAndDangling ! j) ''spanId'' \<noteq>
            getProp (spansChildAndDangling ! i) ''parentSpanId''))"
    by simp
  have "0 \<in> set (rootSpans traceChildAndDangling)"
    using iff[rule_format, of 0] by (simp add: spansChildAndDangling_def)
  moreover have "1 \<notin> set (rootSpans traceChildAndDangling)"
    using iff[rule_format, of 1] by (auto simp: spansChildAndDangling_def)
  moreover have "2 \<in> set (rootSpans traceChildAndDangling)"
    using iff[rule_format, of 2] by (simp add: spansChildAndDangling_def less_Suc_eq)
  ultimately show ?thesis
    using w ts l build_spansChildAndDangling by simp
qed


subsection \<open>Order of the children\<close>




text \<open>
  Where the comparator is not consistent the order depends on the engine: with the
  start times 5, 4, not a date, and 3 the engine of Node reverses the strictly
  decreasing run 5, 4, leaves the span without date behind it, and puts the span of start
  time 3 in front.
\<close>

lemma build_spansDescendingMixed:
  "buildTraceHierarchy samplePlatform 5 ''p'' ''t'' spansDescendingMixed = Inr traceDescendingMixed"
  by code_simp

text \<open>
  Where a span has two or more children and the start time of one of them has no
  conversion to a primitive value, the comparator throws and so does the builder, on
  every platform.
\<close>

lemma sort_throws:
  assumes "convertSpans P spans = Inr ts" and "sortThrows ts"
  shows "buildTraceHierarchy P fuel projId trId spans = Inl TypeError"
  using assms(2) by (simp add: buildTraceHierarchy_eq[OF assms(1)])

lemma build_spansUnconvertibleStart:
  "buildTraceHierarchy samplePlatform 3 ''p'' ''t'' spansUnconvertibleStart = Inl TypeError"
  by code_simp

subsection \<open>Termination\<close>

text \<open>
  C8. With fuel for a recursion as deep as the input is long, the builder never ends in
  \<open>RangeError\<close>, whatever the parent references are: the descendant count of every
  root returns, since a span on a cycle is below no root. The link pass is one loop over
  the spans: it looks a parent up at most once per span, and puts every span exactly
  once into \<^verbatim>\<open>rootSpans\<close> or into one \<^verbatim>\<open>childSpans\<close>.
\<close>

theorem builder_terminates:
  assumes "length spans \<le> fuel"
  shows "buildTraceHierarchy P fuel projId trId spans \<noteq> Inl RangeError
       \<and> (\<forall>ts. convertSpans P spans = Inr ts \<longrightarrow>
            (case linkPass (indexSpans [] 0 ts) ts of
               (heap, roots, lookups) \<Rightarrow>
                 lookups \<le> length spans \<and>
                 mset (roots @ concat (map childSpans heap)) = mset [0..<length spans]))"
proof (cases "convertSpans P spans")
  case (Inl e)
  then have "e = TypeError" by (rule convertSpans_error)
  with Inl show ?thesis by (simp add: buildTraceHierarchy_def)
next
  case (Inr ts)
  from convertSpans_Inr[OF Inr] have len: "length ts = length spans"
    and conv: "\<forall>j<length spans. convertSpan P (spans ! j) = Inr (ts ! j)"
    by simp_all
  have empty: "\<forall>j<length ts. childSpans (ts ! j) = []"
    using len conv by (auto intro: convertSpan_noChildren)
  have "list_all (\<lambda>r. countDescendants fuel (hierarchy P ts) r 0 \<noteq> None) (rootsOf ts)"
    by (rule roots_counted) (use assms len in simp)
  then have ret: "buildTraceHierarchy P fuel projId trId spans \<noteq> Inl RangeError"
    by (simp add: buildTraceHierarchy_eq[OF Inr])
  have "mset (rootsOf ts @ concat (map childSpans (linked ts (length ts)))) = mset [0..<length ts]"
    using mset_linked[of "length ts" ts] by (simp add: rootsOf_def)
  with ret show ?thesis
    using len linkPass_lookups[of ts] by (simp add: Inr linkPass_eq[OF empty])
qed

text \<open>The two spans that name each other as parent: the builder returns.\<close>

theorem builder_terminates_witness:
  "length spansTwoCycle \<le> 2
   \<and> buildTraceHierarchy samplePlatform 2 ''p'' ''t'' spansTwoCycle \<noteq> Inl RangeError
   \<and> convertSpans samplePlatform spansTwoCycle = Inr convertedTwoCycle
   \<and> (case linkPass (indexSpans [] 0 convertedTwoCycle) convertedTwoCycle of
         (heap, roots, lookups) \<Rightarrow>
           lookups \<le> length spansTwoCycle \<and>
           mset (roots @ concat (map childSpans heap)) = mset [0..<length spansTwoCycle])"
  using builder_terminates[OF length_spansTwoCycle, of samplePlatform "''p''" "''t''"]
    length_spansTwoCycle convert_spansTwoCycle
  by simp


subsection \<open>Cycles and completeness\<close>









end
